theory Spec2Isabelle
  imports Main
begin

section \<open>Data model\<close>

text \<open>
  The updater \<^verbatim>\<open>AsyncBulkUpdaterFromEntities\<close> of
  \<^verbatim>\<open>src/utils/update_from_entities/sqla/async_updater.py\<close> is configured with an ORM
  model class (of which only \<^verbatim>\<open>__table__.columns\<close> is read) and an entity class (of which
  only \<^verbatim>\<open>model_fields\<close> is read). Entities are objects whose attributes are read with
  \<^verbatim>\<open>getattr\<close>; a missing attribute raises.
\<close>

datatype py_value = PyNone | PyInt int | PyStr string | PyBool bool

datatype sql_type = SaInteger | SaText | SaNumeric | SaBoolean | SaEnum string

text \<open>A column of the table: its key, its declared type, its primary-key flag.\<close>

record column =
  key :: string
  col_type :: sql_type
  primary_key :: bool

text \<open>The ORM model class: the table it maps and the table's columns, in declaration order.\<close>

record orm_model =
  table_name :: string
  table_columns :: "column list"

text \<open>Python exceptions the code can raise, as values.\<close>

datatype error = AttributeError string | KeyError string | DBAPIError

text \<open>
  A Python \<^verbatim>\<open>dict\<close> keeps insertion order and one entry per key: storing under a key that is
  present replaces the value in place, storing under a new key appends.
\<close>

type_synonym 'v dict = "(string \<times> 'v) list"

fun dict_setitem :: "'v dict \<Rightarrow> string \<Rightarrow> 'v \<Rightarrow> 'v dict" where
  "dict_setitem [] k v = [(k, v)]"
| "dict_setitem ((k', v') # d) k v =
     (if k' = k then (k, v) # d else (k', v') # dict_setitem d k v)"

fun dict_extend :: "'v dict \<Rightarrow> (string \<times> 'v) list \<Rightarrow> 'v dict" where
  "dict_extend d [] = d"
| "dict_extend d ((k, v) # kvs) = dict_extend (dict_setitem d k v) kvs"

text \<open>A dict comprehension \<^verbatim>\<open>{k: v for ...}\<close> stores the generated pairs one by one.\<close>

definition dict_comp :: "(string \<times> 'v) list \<Rightarrow> 'v dict" where
  "dict_comp kvs = dict_extend [] kvs"

definition dict_keys :: "'v dict \<Rightarrow> string list" where
  "dict_keys d = map fst d"

definition dict_values :: "'v dict \<Rightarrow> 'v list" where
  "dict_values d = map snd d"

text \<open>
  The pairs \<^verbatim>\<open>(n, d[n])\<close> for the names \<^verbatim>\<open>n\<close> of \<^verbatim>\<open>ns\<close>, in order, that satisfy
  \<^verbatim>\<open>keep n and n in d\<close>: the generator of both dict comprehensions that look a name up
  in another dict under the guard that it is there.
\<close>

fun select_fields :: "(string \<Rightarrow> bool) \<Rightarrow> 'v dict \<Rightarrow> string list \<Rightarrow> (string \<times> 'v) list" where
  "select_fields keep d [] = []"
| "select_fields keep d (n # ns) =
     (case map_of d n of
        None \<Rightarrow> select_fields keep d ns
      | Some f \<Rightarrow> if keep n then (n, f) # select_fields keep d ns else select_fields keep d ns)"

text \<open>\<^verbatim>\<open>__table__.columns.items()\<close>: the columns under their keys.\<close>

definition columns_items :: "orm_model \<Rightarrow> column dict" where
  "columns_items mc = map (\<lambda>c. (key c, c)) (table_columns mc)"

type_synonym ref = nat

text \<open>
  The instance's slots. \<^verbatim>\<open>_session\<close> is not assigned by \<^verbatim>\<open>__init__\<close>: \<open>None\<close> is the
  unassigned slot, \<open>Some s\<close> a reference to the bound session.
\<close>

record updater =
  model_class :: orm_model
  entity_class :: "string list"
  session :: "ref option"
  primary_fields :: "string set option"
  orm_model_fields :: "column dict"
  primary_fields_by_name :: "column dict"
  default_update_fields_by_name :: "column dict"

section \<open>Construction\<close>

definition is_primary_key :: "string set option \<Rightarrow> string \<Rightarrow> column \<Rightarrow> bool" where
  "is_primary_key pf field_name field =
     (case pf of None \<Rightarrow> primary_key field | Some names \<Rightarrow> field_name \<in> names)"

text \<open>
  \<^verbatim>\<open>__init__\<close> has no \<^verbatim>\<open>raise\<close> and no check: it stores its arguments and the two
  resolved dicts, and returns.
\<close>

definition init :: "orm_model \<Rightarrow> string list \<Rightarrow> string set option \<Rightarrow> updater" where
  "init mc ec pf =
     (let omf = columns_items mc;
          pfbn = dict_comp (filter (\<lambda>(field_name, field). is_primary_key pf field_name field) omf);
          dufbn = dict_comp (select_fields (\<lambda>n. n \<notin> set (dict_keys pfbn)) omf ec)
      in \<lparr> model_class = mc, entity_class = ec, session = None, primary_fields = pf,
           orm_model_fields = omf, primary_fields_by_name = pfbn,
           default_update_fields_by_name = dufbn \<rparr>)"

section \<open>Entities and the statement under construction\<close>

text \<open>An entity object: its attributes. \<^verbatim>\<open>getattr\<close> raises when the attribute is missing.\<close>

type_synonym entity = "string \<rightharpoonup> py_value"

definition getattr :: "entity \<Rightarrow> string \<Rightarrow> error + py_value" where
  "getattr e n = (case e n of None \<Rightarrow> Inl (AttributeError n) | Some v \<Rightarrow> Inr v)"

text \<open>
  A list comprehension or loop whose body can raise: the results in order, or the first
  exception.
\<close>

fun traverse :: "('a \<Rightarrow> error + 'b) \<Rightarrow> 'a list \<Rightarrow> error + 'b list" where
  "traverse f [] = Inr []"
| "traverse f (x # xs) =
     (case f x of
        Inl err \<Rightarrow> Inl err
      | Inr y \<Rightarrow> (case traverse f xs of Inl err \<Rightarrow> Inl err | Inr ys \<Rightarrow> Inr (y # ys)))"

text \<open>
  A cell of the \<^verbatim>\<open>VALUES\<close> data: a Python value passed as it is, or
  \<^verbatim>\<open>sa.null().cast(t)\<close>.
\<close>

datatype cell = Raw py_value | NullCast sql_type

text \<open>\<^verbatim>\<open>sa.values(*columns, name=...).data(rows)\<close>.\<close>

record values_table =
  vname :: string
  vcolumns :: "(string \<times> sql_type) list"
  vdata :: "cell list list"

text \<open>
  The right-hand side of a comparison or of an assignment: a Python value bound as a
  parameter, or a column of a \<^verbatim>\<open>VALUES\<close> table (\<^verbatim>\<open>values.c.name\<close>), which refers to
  its table as SQLAlchemy's column objects do.
\<close>

datatype operand = BindParam py_value | ValuesColumn values_table string

datatype predicate =
    ColEq column operand
  | ColIn column "py_value list"
  | AndAll "predicate list"

text \<open>\<^verbatim>\<open>sa.update(model).where(p).values(**assignments)\<close>.\<close>

record update_stmt =
  target :: orm_model
  whereclause :: predicate
  set_values :: "operand dict"

section \<open>Field resolution per call\<close>

definition clear_update_fields :: "updater \<Rightarrow> string list option \<Rightarrow> column dict" where
  "clear_update_fields u raw_update_fields =
     (case raw_update_fields of
        None \<Rightarrow> default_update_fields_by_name u
      | Some names \<Rightarrow>
          dict_comp (select_fields (\<lambda>n. n \<notin> set (dict_keys (primary_fields_by_name u)))
                       (default_update_fields_by_name u) names))"

section \<open>The virtual table\<close>

text \<open>
  One pass of the inner loop: read the attribute, look the column up in
  \<^verbatim>\<open>_orm_model_fields\<close> (a \<^verbatim>\<open>KeyError\<close> when it is not there), replace
  \<^verbatim>\<open>None\<close> by a typed null.
\<close>

definition row_cell :: "updater \<Rightarrow> entity \<Rightarrow> string \<Rightarrow> error + cell" where
  "row_cell u e field_name =
     (case getattr e field_name of
        Inl err \<Rightarrow> Inl err
      | Inr v \<Rightarrow>
          (case map_of (orm_model_fields u) field_name of
             None \<Rightarrow> Inl (KeyError field_name)
           | Some field \<Rightarrow> Inr (if v = PyNone then NullCast (col_type field) else Raw v)))"

definition build_virtual_table_with_values_to_update ::
    "updater \<Rightarrow> entity list \<Rightarrow> column dict \<Rightarrow> error + values_table" where
  "build_virtual_table_with_values_to_update u entities update_fields =
     (case traverse
             (\<lambda>e. traverse (row_cell u e)
                    (dict_keys (primary_fields_by_name u) @ dict_keys update_fields))
             entities of
        Inl err \<Rightarrow> Inl err
      | Inr data_for_values \<Rightarrow>
          Inr \<lparr> vname = ''new_data'',
                vcolumns = map (\<lambda>(field_name, field). (field_name, col_type field))
                             (primary_fields_by_name u @ update_fields),
                vdata = data_for_values \<rparr>)"

section \<open>The statement\<close>

text \<open>\<^verbatim>\<open>getattr(values.c, name)\<close>: the column of that name, if the table has one.\<close>

definition values_c :: "values_table \<Rightarrow> string \<Rightarrow> error + operand" where
  "values_c vt n =
     (if n \<in> fst ` set (vcolumns vt) then Inr (ValuesColumn vt n) else Inl (AttributeError n))"

definition build_single_lookup_expr_for_table :: "updater \<Rightarrow> entity \<Rightarrow> error + predicate" where
  "build_single_lookup_expr_for_table u e =
     (case traverse
             (\<lambda>field. case getattr e (key field) of
                         Inl err \<Rightarrow> Inl err
                       | Inr v \<Rightarrow> Inr (ColEq field (BindParam v)))
             (dict_values (primary_fields_by_name u)) of
        Inl err \<Rightarrow> Inl err
      | Inr ps \<Rightarrow> Inr (AndAll ps))"

definition build_many_lookup_expr_for_table :: "updater \<Rightarrow> entity list \<Rightarrow> error + predicate" where
  "build_many_lookup_expr_for_table u entities =
     (case traverse
             (\<lambda>field. case traverse (\<lambda>e. getattr e (key field)) entities of
                         Inl err \<Rightarrow> Inl err
                       | Inr vs \<Rightarrow> Inr (ColIn field vs))
             (dict_values (primary_fields_by_name u)) of
        Inl err \<Rightarrow> Inl err
      | Inr ps \<Rightarrow> Inr (AndAll ps))"

definition build_lookup_expr_for_join_table_and_values ::
    "updater \<Rightarrow> values_table \<Rightarrow> error + predicate" where
  "build_lookup_expr_for_join_table_and_values u vt =
     (case traverse
             (\<lambda>table_field. case values_c vt (key table_field) of
                               Inl err \<Rightarrow> Inl err
                             | Inr c \<Rightarrow> Inr (ColEq table_field c))
             (dict_values (primary_fields_by_name u)) of
        Inl err \<Rightarrow> Inl err
      | Inr ps \<Rightarrow> Inr (AndAll ps))"

definition build_update_statement ::
    "updater \<Rightarrow> entity list \<Rightarrow> column dict \<Rightarrow> values_table \<Rightarrow> error + update_stmt" where
  "build_update_statement u entities update_fields new_data_values =
     (case build_many_lookup_expr_for_table u entities of
        Inl err \<Rightarrow> Inl err
      | Inr many \<Rightarrow>
     (case build_lookup_expr_for_join_table_and_values u new_data_values of
        Inl err \<Rightarrow> Inl err
      | Inr join \<Rightarrow>
     (case traverse
             (\<lambda>field_name. case values_c new_data_values field_name of
                              Inl err \<Rightarrow> Inl err
                            | Inr c \<Rightarrow> Inr (field_name, c))
             (dict_keys update_fields) of
        Inl err \<Rightarrow> Inl err
      | Inr assignments \<Rightarrow>
          Inr \<lparr> target = model_class u,
                whereclause = AndAll [many, join],
                set_values = dict_comp assignments \<rparr>)))"

section \<open>Objects, sessions and the public methods\<close>

text \<open>
  A session is an external object; of it the model keeps the statements passed to
  \<^verbatim>\<open>execute\<close>, in order, and whether the database raises on them.
\<close>

record db_session =
  executed :: "update_stmt list"
  failing :: bool

text \<open>The objects the methods reach through references: updaters, sessions, entities.\<close>

record world =
  updaters :: "ref \<Rightarrow> updater"
  sessions :: "ref \<Rightarrow> db_session"
  entities :: "ref \<Rightarrow> entity"

definition execute :: "world \<Rightarrow> ref \<Rightarrow> update_stmt \<Rightarrow> (error + unit) \<times> world" where
  "execute w s stmt =
     (let ses = sessions w s;
          w' = w\<lparr> sessions := (sessions w)(s := ses\<lparr> executed := executed ses @ [stmt] \<rparr>) \<rparr>
      in (if failing ses then Inl DBAPIError else Inr (), w'))"

text \<open>\<^verbatim>\<open>__call__\<close>: assign the slot of the object, return the object.\<close>

definition call :: "world \<Rightarrow> ref \<Rightarrow> ref \<Rightarrow> ref \<times> world" where
  "call w self s =
     (self, w\<lparr> updaters := (updaters w)(self := (updaters w self)\<lparr> session := Some s \<rparr>) \<rparr>)"

definition update_from_entity ::
    "world \<Rightarrow> ref \<Rightarrow> ref \<Rightarrow> string list option \<Rightarrow> (error + ref) \<times> world" where
  "update_from_entity w self entity update_fields =
     (let u = updaters w self;
          e = entities w entity;
          update_fields = clear_update_fields u update_fields
      in case build_single_lookup_expr_for_table u e of
           Inl err \<Rightarrow> (Inl err, w)
         | Inr lookup \<Rightarrow>
        (case traverse
                (\<lambda>field_name. case getattr e field_name of
                                 Inl err \<Rightarrow> Inl err
                               | Inr v \<Rightarrow> Inr (field_name, BindParam v))
                (dict_keys update_fields) of
           Inl err \<Rightarrow> (Inl err, w)
         | Inr assignments \<Rightarrow>
        (let stmt = \<lparr> target = model_class u, whereclause = lookup,
                      set_values = dict_comp assignments \<rparr>
         in case session u of
              None \<Rightarrow> (Inl (AttributeError ''_session''), w)
            | Some s \<Rightarrow>
                (case execute w s stmt of
                   (Inl err, w') \<Rightarrow> (Inl err, w')
                 | (Inr _, w') \<Rightarrow> (Inr entity, w')))))"

definition update_from_entities ::
    "world \<Rightarrow> ref \<Rightarrow> ref list \<Rightarrow> string list option \<Rightarrow> (error + ref list option) \<times> world" where
  "update_from_entities w self ents update_fields =
     (if length ents = 0 then (Inr None, w)
      else
        (let u = updaters w self;
             es = map (entities w) ents;
             update_fields = clear_update_fields u update_fields
         in case build_virtual_table_with_values_to_update u es update_fields of
              Inl err \<Rightarrow> (Inl err, w)
            | Inr new_data_values \<Rightarrow>
           (case build_update_statement u es update_fields new_data_values of
              Inl err \<Rightarrow> (Inl err, w)
            | Inr stmt \<Rightarrow>
           (case session u of
              None \<Rightarrow> (Inl (AttributeError ''_session''), w)
            | Some s \<Rightarrow>
                (case execute w s stmt of
                   (Inl err, w') \<Rightarrow> (Inl err, w')
                 | (Inr _, w') \<Rightarrow> (Inr (Some ents), w'))))))"

section \<open>Preconditions and a worked configuration\<close>

text \<open>Every name of \<open>ns\<close> is an attribute of the entity (\<^verbatim>\<open>hasattr\<close> for each).\<close>

definition has_attrs :: "entity \<Rightarrow> string list \<Rightarrow> bool" where
  "has_attrs e ns = list_all (\<lambda>n. e n \<noteq> None) ns"

text \<open>
  The table \<^verbatim>\<open>order(order_id int pk, attempt_id int pk, status text, total numeric)\<close>,
  an entity class with the same four fields, two entities, and a world in which the updater
  is bound to session 0.
\<close>

definition order_model :: orm_model where
  "order_model =
     \<lparr> table_name = ''order'',
       table_columns =
         [\<lparr> key = ''order_id'', col_type = SaInteger, primary_key = True \<rparr>,
          \<lparr> key = ''attempt_id'', col_type = SaInteger, primary_key = True \<rparr>,
          \<lparr> key = ''status'', col_type = SaText, primary_key = False \<rparr>,
          \<lparr> key = ''total'', col_type = SaNumeric, primary_key = False \<rparr>] \<rparr>"

definition order_fields :: "string list" where
  "order_fields = [''order_id'', ''attempt_id'', ''status'', ''total'']"

definition order_paid :: entity where
  "order_paid =
     [''order_id'' \<mapsto> PyInt 1, ''attempt_id'' \<mapsto> PyInt 1,
      ''status'' \<mapsto> PyStr ''paid'', ''total'' \<mapsto> PyNone]"

definition order_failed :: entity where
  "order_failed =
     [''order_id'' \<mapsto> PyInt 1, ''attempt_id'' \<mapsto> PyInt 2,
      ''status'' \<mapsto> PyStr ''failed'', ''total'' \<mapsto> PyInt 50]"

definition order_world :: world where
  "order_world =
     \<lparr> updaters = (\<lambda>_. (init order_model order_fields None)\<lparr> session := Some 0 \<rparr>),
       sessions = (\<lambda>_. \<lparr> executed = [], failing = False \<rparr>),
       entities = (\<lambda>r. if r = 0 then order_paid else order_failed) \<rparr>"

text \<open>A table that declares no primary key, with an entity class of its one field.\<close>

definition log_model :: orm_model where
  "log_model =
     \<lparr> table_name = ''log'',
       table_columns = [\<lparr> key = ''message'', col_type = SaText, primary_key = False \<rparr>] \<rparr>"

section \<open>Dicts, comprehensions and iteration\<close>

lemma dict_setitem_keys: "fst ` set (dict_setitem d k v) = insert k (fst ` set d)"
proof (induction d k v rule: dict_setitem.induct)
  case (1 k v)
  then show ?case by simp
next
  case (2 k' v' d k v)
  show ?case
  proof (cases "k' = k")
    case True
    then show ?thesis by simp
  next
    case False
    with 2 show ?thesis by (simp add: insert_commute)
  qed
qed

lemma dict_setitem_fresh: "k \<notin> fst ` set d \<Longrightarrow> dict_setitem d k v = d @ [(k, v)]"
  by (induction d) auto

lemma dict_setitem_distinct: "distinct (map fst d) \<Longrightarrow> distinct (map fst (dict_setitem d k v))"
  by (induction d) (auto simp: dict_setitem_keys)

lemma dict_setitem_entries: "set (dict_setitem d k v) \<subseteq> insert (k, v) (set d)"
  by (induction d k v rule: dict_setitem.induct) (auto split: if_splits)

lemma dict_extend_keys: "fst ` set (dict_extend d kvs) = fst ` set d \<union> fst ` set kvs"
  by (induction d kvs rule: dict_extend.induct) (auto simp: dict_setitem_keys)

lemma dict_extend_distinct_keys:
  "distinct (map fst d) \<Longrightarrow> distinct (map fst (dict_extend d kvs))"
  by (induction d kvs rule: dict_extend.induct) (auto simp: dict_setitem_distinct)

lemma dict_extend_entries: "set (dict_extend d kvs) \<subseteq> set d \<union> set kvs"
proof (induction d kvs rule: dict_extend.induct)
  case (1 d)
  then show ?case by simp
next
  case (2 d k v kvs)
  then show ?case using dict_setitem_entries [of d k v] by auto
qed

lemma dict_extend_append:
  "distinct (map fst (d @ kvs)) \<Longrightarrow> dict_extend d kvs = d @ kvs"
proof (induction d kvs rule: dict_extend.induct)
  case (1 d)
  then show ?case by simp
next
  case (2 d k v kvs)
  then have fresh: "k \<notin> fst ` set d" by auto
  from 2 have "distinct (map fst ((d @ [(k, v)]) @ kvs))" by auto
  with 2 fresh show ?case by (simp add: dict_setitem_fresh)
qed

lemma dict_comp_keys: "set (dict_keys (dict_comp kvs)) = fst ` set kvs"
  by (simp add: dict_comp_def dict_keys_def dict_extend_keys)

lemma dict_comp_distinct_keys: "distinct (dict_keys (dict_comp kvs))"
  by (simp add: dict_comp_def dict_keys_def dict_extend_distinct_keys)

lemma dict_comp_entries: "set (dict_comp kvs) \<subseteq> set kvs"
  using dict_extend_entries [of "[]" kvs] by (simp add: dict_comp_def)

lemma dict_comp_id: "distinct (map fst kvs) \<Longrightarrow> dict_comp kvs = kvs"
  using dict_extend_append [of "[]" kvs] by (simp add: dict_comp_def)

lemma select_fields_entries:
  "set (select_fields keep d ns) = {(n, f). n \<in> set ns \<and> keep n \<and> map_of d n = Some f}"
  by (induction ns) (auto split: option.splits)

lemma select_fields_keys:
  "map fst (select_fields keep d ns) = filter (\<lambda>n. keep n \<and> n \<in> fst ` set d) ns"
  by (induction ns)
     (auto split: option.splits simp: dom_map_of_conv_image_fst [symmetric] domIff)

lemma traverse_Inr: "(\<And>x. x \<in> set xs \<Longrightarrow> f x = Inr (g x)) \<Longrightarrow> traverse f xs = Inr (map g xs)"
  by (induction xs) auto

section \<open>Facts about construction and field resolution\<close>

lemma init_orm_model_fields: "orm_model_fields ((init mc ec pf)\<lparr>session := s\<rparr>) = columns_items mc"
  by (simp add: init_def Let_def)

lemma init_model_class: "model_class ((init mc ec pf)\<lparr>session := s\<rparr>) = mc"
  by (simp add: init_def Let_def)

lemma init_primary_fields_by_name:
  "primary_fields_by_name ((init mc ec pf)\<lparr>session := s\<rparr>) =
     dict_comp (filter (\<lambda>(n, f). is_primary_key pf n f) (columns_items mc))"
  by (simp add: init_def Let_def)

lemma init_default_update_fields_by_name:
  "default_update_fields_by_name ((init mc ec pf)\<lparr>session := s\<rparr>) =
     dict_comp (select_fields
       (\<lambda>n. n \<notin> set (dict_keys (primary_fields_by_name ((init mc ec pf)\<lparr>session := s\<rparr>))))
       (columns_items mc) ec)"
  by (simp add: init_def Let_def)

lemma init_session_None: "(init mc ec pf)\<lparr>session := None\<rparr> = init mc ec pf"
  by (simp add: init_def Let_def)

lemma columns_items_keys: "fst ` set (columns_items mc) = key ` set (table_columns mc)"
  by (force simp: columns_items_def)

lemma columns_items_entry: "(n, f) \<in> set (columns_items mc) \<Longrightarrow> key f = n \<and> f \<in> set (table_columns mc)"
  by (auto simp: columns_items_def)

lemma pk_keys:
  "set (dict_keys (primary_fields_by_name ((init mc ec pf)\<lparr>session := s\<rparr>))) =
     key ` {c \<in> set (table_columns mc). is_primary_key pf (key c) c}"
  by (force simp: init_primary_fields_by_name dict_comp_keys columns_items_def)

lemma pk_entry:
  assumes "(n, f) \<in> set (primary_fields_by_name ((init mc ec pf)\<lparr>session := s\<rparr>))"
  shows "key f = n \<and> f \<in> set (table_columns mc) \<and> is_primary_key pf n f"
proof -
  from assms have "(n, f) \<in> set (filter (\<lambda>(n, f). is_primary_key pf n f) (columns_items mc))"
    using dict_comp_entries by (fastforce simp: init_primary_fields_by_name)
  then show ?thesis by (auto dest: columns_items_entry)
qed

lemma pk_ordered:
  assumes "distinct (map key (table_columns mc))"
  shows "primary_fields_by_name ((init mc ec pf)\<lparr>session := s\<rparr>) =
           map (\<lambda>c. (key c, c)) (filter (\<lambda>c. is_primary_key pf (key c) c) (table_columns mc))"
proof -
  have eq: "filter (\<lambda>(n, f). is_primary_key pf n f) (columns_items mc) =
        map (\<lambda>c. (key c, c)) (filter (\<lambda>c. is_primary_key pf (key c) c) (table_columns mc))"
    by (simp add: columns_items_def filter_map comp_def)
  have "distinct (map fst (map (\<lambda>c. (key c, c)) (filter (\<lambda>c. is_primary_key pf (key c) c) (table_columns mc))))"
    using assms by (simp add: comp_def distinct_map_filter)
  then show ?thesis
    by (simp add: init_primary_fields_by_name eq dict_comp_id)
qed

lemma default_keys:
  "set (dict_keys (default_update_fields_by_name ((init mc ec pf)\<lparr>session := s\<rparr>))) =
     (key ` set (table_columns mc) \<inter> set ec)
       - set (dict_keys (primary_fields_by_name ((init mc ec pf)\<lparr>session := s\<rparr>)))"
proof -
  have "set (dict_keys (default_update_fields_by_name ((init mc ec pf)\<lparr>session := s\<rparr>))) =
      set (map fst (select_fields
       (\<lambda>n. n \<notin> set (dict_keys (primary_fields_by_name ((init mc ec pf)\<lparr>session := s\<rparr>))))
       (columns_items mc) ec))"
    by (simp add: init_default_update_fields_by_name dict_comp_keys)
  then show ?thesis
    by (auto simp: select_fields_keys columns_items_keys)
qed

lemma default_entry:
  assumes "(n, f) \<in> set (default_update_fields_by_name ((init mc ec pf)\<lparr>session := s\<rparr>))"
  shows "map_of (columns_items mc) n = Some f \<and> n \<in> set ec
         \<and> n \<notin> set (dict_keys (primary_fields_by_name ((init mc ec pf)\<lparr>session := s\<rparr>)))"
proof -
  from assms have "(n, f) \<in> set (select_fields
       (\<lambda>n. n \<notin> set (dict_keys (primary_fields_by_name ((init mc ec pf)\<lparr>session := s\<rparr>))))
       (columns_items mc) ec)"
    using dict_comp_entries by (fastforce simp: init_default_update_fields_by_name)
  then show ?thesis by (simp add: select_fields_entries)
qed

lemma clear_keys_requested:
  "set (dict_keys (clear_update_fields u (Some names))) =
     {n \<in> set names. n \<in> set (dict_keys (default_update_fields_by_name u))
                    \<and> n \<notin> set (dict_keys (primary_fields_by_name u))}"
proof -
  have "set (dict_keys (clear_update_fields u (Some names))) =
      set (map fst (select_fields (\<lambda>n. n \<notin> set (dict_keys (primary_fields_by_name u)))
                       (default_update_fields_by_name u) names))"
    by (simp add: clear_update_fields_def dict_comp_keys)
  then show ?thesis
    by (auto simp: select_fields_keys dict_keys_def)
qed

lemma clear_entry:
  assumes "(n, f) \<in> set (clear_update_fields u req)"
  shows "(n, f) \<in> set (default_update_fields_by_name u)"
proof (cases req)
  case None
  with assms show ?thesis by (simp add: clear_update_fields_def)
next
  case (Some names)
  with assms have "(n, f) \<in> set (select_fields (\<lambda>n. n \<notin> set (dict_keys (primary_fields_by_name u)))
                       (default_update_fields_by_name u) names)"
    using dict_comp_entries by (fastforce simp: clear_update_fields_def)
  then show ?thesis by (auto simp: select_fields_entries dest: map_of_SomeD)
qed

lemma clear_distinct:
  "distinct (dict_keys (clear_update_fields ((init mc ec pf)\<lparr>session := s\<rparr>) req))"
  by (cases req) (simp_all add: clear_update_fields_def dict_comp_distinct_keys
       init_default_update_fields_by_name)

section \<open>Iteration that can raise, frames of the public methods\<close>

lemma traverse_Inr_D:
  "traverse f xs = Inr ys \<Longrightarrow> list_all2 (\<lambda>x y. f x = Inr y) xs ys"
  by (induction xs arbitrary: ys) (auto split: sum.splits)

lemma traverse_projr:
  "(\<And>x. x \<in> set xs \<Longrightarrow> \<exists>y. f x = Inr y) \<Longrightarrow> traverse f xs = Inr (map (\<lambda>x. projr (f x)) xs)"
proof (rule traverse_Inr)
  fix x assume "x \<in> set xs" and "\<And>x. x \<in> set xs \<Longrightarrow> \<exists>y. f x = Inr y"
  then obtain y where "f x = Inr y" by blast
  then show "f x = Inr (projr (f x))" by simp
qed

lemma update_from_entities_updaters:
  "updaters (snd (update_from_entities w self ents req)) = updaters w"
  by (simp add: update_from_entities_def execute_def Let_def
        split: sum.splits option.splits prod.splits)

lemma update_from_entity_updaters:
  "updaters (snd (update_from_entity w self e req)) = updaters w"
  by (simp add: update_from_entity_def execute_def Let_def
        split: sum.splits option.splits prod.splits)

lemma update_from_entities_entities:
  "entities (snd (update_from_entities w self ents req)) = entities w"
  by (simp add: update_from_entities_def execute_def Let_def
        split: sum.splits option.splits prod.splits)

lemma update_from_entity_entities:
  "entities (snd (update_from_entity w self e req)) = entities w"
  by (simp add: update_from_entity_def execute_def Let_def
        split: sum.splits option.splits prod.splits)

lemma set_clause_keys:
  assumes "build_update_statement u es uf vt = Inr stmt"
  shows "set (dict_keys (set_values stmt)) = set (dict_keys uf)"
proof -
  from assms obtain assignments where
    tr: "traverse (\<lambda>field_name. case values_c vt field_name of
                              Inl err \<Rightarrow> Inl err
                            | Inr c \<Rightarrow> Inr (field_name, c)) (dict_keys uf) = Inr assignments"
    and sv: "set_values stmt = dict_comp assignments"
    by (auto simp: build_update_statement_def split: sum.splits)
  from traverse_Inr_D [OF tr]
  have "list_all2 (\<lambda>x y. fst y = x) (dict_keys uf) assignments"
    by (rule list_all2_mono) (auto split: sum.splits)
  then have "map fst assignments = dict_keys uf"
    by (induction rule: list_all2_induct) auto
  then have "fst ` set assignments = set (dict_keys uf)"
    by (metis set_map)
  with sv show ?thesis by (simp add: dict_comp_keys)
qed

section \<open>What the builders return on readable entities\<close>

lemma has_attrs_iff: "has_attrs e ns \<longleftrightarrow> (\<forall>n\<in>set ns. \<exists>v. e n = Some v)"
  by (auto simp: has_attrs_def list_all_iff)

lemma getattr_the: "has_attrs e ns \<Longrightarrow> n \<in> set ns \<Longrightarrow> getattr e n = Inr (the (e n))"
  by (auto simp: has_attrs_iff getattr_def)

lemma row_cell_ok:
  assumes "e n = Some v" and "map_of (orm_model_fields u) n = Some f"
  shows "row_cell u e n = Inr (if v = PyNone then NullCast (col_type f) else Raw v)"
  using assms by (simp add: row_cell_def getattr_def)

lemma pk_in_schema:
  assumes "n \<in> set (dict_keys (primary_fields_by_name ((init mc ec pf)\<lparr>session := s\<rparr>)))"
  shows "\<exists>f. map_of (columns_items mc) n = Some f"
proof -
  from assms have "n \<in> key ` set (table_columns mc)"
    unfolding pk_keys by auto
  then have "n \<in> fst ` set (columns_items mc)"
    by (simp add: columns_items_keys)
  then show ?thesis
    by (metis map_of_eq_None_iff not_None_eq)
qed

lemma resolved_in_schema:
  assumes "n \<in> set (dict_keys (clear_update_fields ((init mc ec pf)\<lparr>session := s\<rparr>) req))"
  shows "\<exists>f. map_of (columns_items mc) n = Some f"
proof -
  from assms obtain f where "(n, f) \<in> set (clear_update_fields ((init mc ec pf)\<lparr>session := s\<rparr>) req)"
    by (auto simp: dict_keys_def)
  then have "(n, f) \<in> set (default_update_fields_by_name ((init mc ec pf)\<lparr>session := s\<rparr>))"
    by (rule clear_entry)
  then show ?thesis
    using default_entry [where n = n and f = f and mc = mc and ec = ec and pf = pf and s = s]
    by blast
qed

lemma row_cell_defined:
  assumes u: "u = (init mc ec pf)\<lparr>session := s\<rparr>"
    and attrs: "has_attrs e (dict_keys (primary_fields_by_name u)
                              @ dict_keys (clear_update_fields u req))"
    and n: "n \<in> set (dict_keys (primary_fields_by_name u)
                       @ dict_keys (clear_update_fields u req))"
  shows "\<exists>v f. e n = Some v \<and> map_of (columns_items mc) n = Some f
               \<and> row_cell u e n = Inr (if v = PyNone then NullCast (col_type f) else Raw v)"
proof -
  from attrs n obtain v where v: "e n = Some v"
    by (auto simp: has_attrs_iff)
  from n obtain f where f: "map_of (columns_items mc) n = Some f"
    using pk_in_schema [where n = n and mc = mc and ec = ec and pf = pf and s = s]
      resolved_in_schema [where n = n and mc = mc and ec = ec and pf = pf and s = s and req = req]
    unfolding u by auto
  then have "map_of (orm_model_fields u) n = Some f"
    by (simp add: u init_orm_model_fields)
  with v f show ?thesis
    using row_cell_ok by blast
qed

lemma virtual_table_built:
  assumes u: "u = (init mc ec pf)\<lparr>session := s\<rparr>"
    and uf: "uf = clear_update_fields u req"
    and attrs: "\<forall>e\<in>set es. has_attrs e (dict_keys (primary_fields_by_name u) @ dict_keys uf)"
  shows "build_virtual_table_with_values_to_update u es uf =
           Inr \<lparr> vname = ''new_data'',
                 vcolumns = map (\<lambda>(n, f). (n, col_type f)) (primary_fields_by_name u @ uf),
                 vdata = map (\<lambda>e. map (\<lambda>n. projr (row_cell u e n))
                                    (dict_keys (primary_fields_by_name u) @ dict_keys uf)) es \<rparr>"
proof -
  let ?names = "dict_keys (primary_fields_by_name u) @ dict_keys uf"
  have row: "traverse (row_cell u e) ?names = Inr (map (\<lambda>n. projr (row_cell u e n)) ?names)"
    if "e \<in> set es" for e
  proof (rule traverse_projr)
    fix n assume "n \<in> set ?names"
    with that attrs show "\<exists>y. row_cell u e n = Inr y"
      using row_cell_defined [OF u, where e = e and req = req and n = n] unfolding uf by blast
  qed
  have "traverse (\<lambda>e. traverse (row_cell u e) ?names) es
          = Inr (map (\<lambda>e. map (\<lambda>n. projr (row_cell u e n)) ?names) es)"
    by (rule traverse_Inr) (rule row)
  then show ?thesis
    by (simp add: build_virtual_table_with_values_to_update_def)
qed

lemma pk_values_keyed:
  assumes "f \<in> set (dict_values (primary_fields_by_name ((init mc ec pf)\<lparr>session := s\<rparr>)))"
  shows "key f \<in> set (dict_keys (primary_fields_by_name ((init mc ec pf)\<lparr>session := s\<rparr>)))"
proof -
  from assms obtain n where nf: "(n, f) \<in> set (primary_fields_by_name ((init mc ec pf)\<lparr>session := s\<rparr>))"
    by (auto simp: dict_values_def)
  then have "key f = n" by (simp add: pk_entry)
  with nf show ?thesis by (force simp: dict_keys_def)
qed

lemma many_lookup_built:
  assumes u: "u = (init mc ec pf)\<lparr>session := s\<rparr>"
    and attrs: "\<forall>e\<in>set es. has_attrs e (dict_keys (primary_fields_by_name u) @ ns)"
  shows "build_many_lookup_expr_for_table u es =
           Inr (AndAll (map (\<lambda>field. ColIn field (map (\<lambda>e. the (e (key field))) es))
                            (dict_values (primary_fields_by_name u))))"
proof -
  have inner: "traverse (\<lambda>e. getattr e (key field)) es = Inr (map (\<lambda>e. the (e (key field))) es)"
    if "field \<in> set (dict_values (primary_fields_by_name u))" for field
  proof (rule traverse_Inr)
    fix e assume "e \<in> set es"
    with attrs have "has_attrs e (dict_keys (primary_fields_by_name u) @ ns)" by blast
    moreover from that have "key field \<in> set (dict_keys (primary_fields_by_name u) @ ns)"
      using pk_values_keyed unfolding u by auto
    ultimately show "getattr e (key field) = Inr (the (e (key field)))"
      by (rule getattr_the)
  qed
  have "traverse (\<lambda>field. case traverse (\<lambda>e. getattr e (key field)) es of
                         Inl err \<Rightarrow> Inl err
                       | Inr vs \<Rightarrow> Inr (ColIn field vs))
             (dict_values (primary_fields_by_name u))
        = Inr (map (\<lambda>field. ColIn field (map (\<lambda>e. the (e (key field))) es))
                   (dict_values (primary_fields_by_name u)))"
    by (rule traverse_Inr) (simp add: inner)
  then show ?thesis
    by (simp add: build_many_lookup_expr_for_table_def)
qed

lemma join_built:
  assumes u: "u = (init mc ec pf)\<lparr>session := s\<rparr>"
    and cols: "set (dict_keys (primary_fields_by_name u)) \<subseteq> fst ` set (vcolumns vt)"
  shows "build_lookup_expr_for_join_table_and_values u vt =
           Inr (AndAll (map (\<lambda>table_field. ColEq table_field (ValuesColumn vt (key table_field)))
                            (dict_values (primary_fields_by_name u))))"
proof -
  have "traverse (\<lambda>table_field. case values_c vt (key table_field) of
                               Inl err \<Rightarrow> Inl err
                             | Inr c \<Rightarrow> Inr (ColEq table_field c))
             (dict_values (primary_fields_by_name u))
        = Inr (map (\<lambda>table_field. ColEq table_field (ValuesColumn vt (key table_field)))
                   (dict_values (primary_fields_by_name u)))"
  proof (rule traverse_Inr)
    fix table_field assume "table_field \<in> set (dict_values (primary_fields_by_name u))"
    then have "key table_field \<in> fst ` set (vcolumns vt)"
      using pk_values_keyed cols unfolding u by blast
    then show "(case values_c vt (key table_field) of
                               Inl err \<Rightarrow> Inl err
                             | Inr c \<Rightarrow> Inr (ColEq table_field c))
         = Inr (ColEq table_field (ValuesColumn vt (key table_field)))"
      by (simp add: values_c_def)
  qed
  then show ?thesis
    by (simp add: build_lookup_expr_for_join_table_and_values_def)
qed

lemma assignments_built:
  assumes cols: "set (dict_keys uf) \<subseteq> fst ` set (vcolumns vt)"
  shows "traverse (\<lambda>field_name. case values_c vt field_name of
                              Inl err \<Rightarrow> Inl err
                            | Inr c \<Rightarrow> Inr (field_name, c)) (dict_keys uf)
         = Inr (map (\<lambda>field_name. (field_name, ValuesColumn vt field_name)) (dict_keys uf))"
proof (rule traverse_Inr)
  fix field_name assume "field_name \<in> set (dict_keys uf)"
  with cols have "field_name \<in> fst ` set (vcolumns vt)" by blast
  then show "(case values_c vt field_name of
                              Inl err \<Rightarrow> Inl err
                            | Inr c \<Rightarrow> Inr (field_name, c))
        = Inr (field_name, ValuesColumn vt field_name)"
    by (simp add: values_c_def)
qed

lemma statement_built:
  assumes u: "u = (init mc ec pf)\<lparr>session := s\<rparr>"
    and uf: "uf = clear_update_fields u req"
    and attrs: "\<forall>e\<in>set es. has_attrs e (dict_keys (primary_fields_by_name u) @ dict_keys uf)"
    and cols: "map fst (vcolumns vt) = dict_keys (primary_fields_by_name u) @ dict_keys uf"
  shows "build_update_statement u es uf vt =
           Inr \<lparr> target = mc,
                 whereclause =
                   AndAll
                     [AndAll (map (\<lambda>field. ColIn field (map (\<lambda>e. the (e (key field))) es))
                                  (dict_values (primary_fields_by_name u))),
                      AndAll (map (\<lambda>table_field.
                                      ColEq table_field (ValuesColumn vt (key table_field)))
                                  (dict_values (primary_fields_by_name u)))],
                 set_values = map (\<lambda>field_name. (field_name, ValuesColumn vt field_name))
                                  (dict_keys uf) \<rparr>"
proof -
  from cols have names: "fst ` set (vcolumns vt)
      = set (dict_keys (primary_fields_by_name u)) \<union> set (dict_keys uf)"
    by (metis set_append set_map)
  have d: "distinct (map fst (map (\<lambda>field_name. (field_name, ValuesColumn vt field_name))
                                  (dict_keys uf)))"
    using clear_distinct [where mc = mc and ec = ec and pf = pf and s = s and req = req] by (simp add: comp_def u uf)
  have "build_many_lookup_expr_for_table u es =
           Inr (AndAll (map (\<lambda>field. ColIn field (map (\<lambda>e. the (e (key field))) es))
                            (dict_values (primary_fields_by_name u))))"
    using many_lookup_built [OF u attrs] .
  moreover have "build_lookup_expr_for_join_table_and_values u vt =
           Inr (AndAll (map (\<lambda>table_field. ColEq table_field (ValuesColumn vt (key table_field)))
                            (dict_values (primary_fields_by_name u))))"
    by (rule join_built [OF u]) (simp add: names)
  moreover have "traverse (\<lambda>field_name. case values_c vt field_name of
                              Inl err \<Rightarrow> Inl err
                            | Inr c \<Rightarrow> Inr (field_name, c)) (dict_keys uf)
         = Inr (map (\<lambda>field_name. (field_name, ValuesColumn vt field_name)) (dict_keys uf))"
    by (rule assignments_built) (simp add: names)
  ultimately show ?thesis
    by (simp add: build_update_statement_def dict_comp_id [OF d] u init_model_class)
qed

lemma virtual_table_columns:
  "map fst (map (\<lambda>(n, f). (n, col_type f)) (pk @ uf)) = dict_keys pk @ dict_keys uf"
  by (simp add: dict_keys_def comp_def case_prod_unfold)

lemma bulk_update_result:
  assumes u: "updaters w self = (init mc ec pf)\<lparr>session := Some s\<rparr>"
    and ne: "ents \<noteq> []"
    and attrs: "\<forall>r\<in>set ents. has_attrs (entities w r)
                  (dict_keys (primary_fields_by_name (updaters w self))
                   @ dict_keys (clear_update_fields (updaters w self) req))"
  shows "\<exists>vt stmt.
           build_virtual_table_with_values_to_update (updaters w self) (map (entities w) ents)
               (clear_update_fields (updaters w self) req) = Inr vt
         \<and> build_update_statement (updaters w self) (map (entities w) ents)
               (clear_update_fields (updaters w self) req) vt = Inr stmt
         \<and> update_from_entities w self ents req =
             (if failing (sessions w s) then Inl DBAPIError else Inr (Some ents),
              w\<lparr> sessions := (sessions w)
                    (s := (sessions w s)\<lparr> executed := executed (sessions w s) @ [stmt] \<rparr>) \<rparr>)"
proof -
  let ?u = "updaters w self"
  let ?uf = "clear_update_fields ?u req"
  let ?es = "map (entities w) ents"
  have attrs': "\<forall>e\<in>set ?es. has_attrs e (dict_keys (primary_fields_by_name ?u) @ dict_keys ?uf)"
    using attrs by simp
  from virtual_table_built [OF u refl attrs']
  obtain vt where vt: "build_virtual_table_with_values_to_update ?u ?es ?uf = Inr vt"
    and cols: "vcolumns vt = map (\<lambda>(n, f). (n, col_type f)) (primary_fields_by_name ?u @ ?uf)"
    by simp
  have names: "map fst (vcolumns vt) = dict_keys (primary_fields_by_name ?u) @ dict_keys ?uf"
    unfolding cols by (rule virtual_table_columns)
  from statement_built [OF u refl attrs' names]
  obtain stmt where stmt: "build_update_statement ?u ?es ?uf vt = Inr stmt"
    by simp
  have bound: "session ?u = Some s"
    by (simp add: u)
  have "update_from_entities w self ents req =
             (if failing (sessions w s) then Inl DBAPIError else Inr (Some ents),
              w\<lparr> sessions := (sessions w)
                    (s := (sessions w s)\<lparr> executed := executed (sessions w s) @ [stmt] \<rparr>) \<rparr>)"
    using ne by (simp add: update_from_entities_def Let_def vt stmt bound execute_def)
  with vt stmt show ?thesis by blast
qed

lemma pk_values_keys:
  "map key (dict_values (primary_fields_by_name ((init mc ec pf)\<lparr>session := s\<rparr>)))
     = dict_keys (primary_fields_by_name ((init mc ec pf)\<lparr>session := s\<rparr>))"
proof -
  have "key (snd p) = fst p"
    if "p \<in> set (primary_fields_by_name ((init mc ec pf)\<lparr>session := s\<rparr>))" for p
    using that pk_entry [where n = "fst p" and f = "snd p" and mc = mc and ec = ec and pf = pf and s = s]
    by simp
  then show ?thesis
    by (simp add: dict_values_def dict_keys_def)
qed

lemma single_update_result:
  assumes u: "updaters w self = (init mc ec pf)\<lparr>session := Some s\<rparr>"
    and attrs: "has_attrs (entities w e)
                  (dict_keys (primary_fields_by_name (updaters w self))
                   @ dict_keys (clear_update_fields (updaters w self) req))"
  shows "update_from_entity w self e req =
           (if failing (sessions w s) then Inl DBAPIError else Inr e,
            w\<lparr> sessions := (sessions w)
                  (s := (sessions w s)\<lparr> executed := executed (sessions w s) @
                     [\<lparr> target = mc,
                        whereclause = AndAll (map (\<lambda>field. ColEq field
                                          (BindParam (the (entities w e (key field)))))
                                        (dict_values (primary_fields_by_name (updaters w self)))),
                        set_values = map (\<lambda>n. (n, BindParam (the (entities w e n))))
                                       (dict_keys (clear_update_fields (updaters w self) req)) \<rparr>]
                     \<rparr>) \<rparr>)"
proof -
  let ?u = "updaters w self"
  let ?uf = "clear_update_fields ?u req"
  let ?e = "entities w e"
  have lookup: "traverse (\<lambda>field. case getattr ?e (key field) of
                         Inl err \<Rightarrow> Inl err
                       | Inr v \<Rightarrow> Inr (ColEq field (BindParam v)))
             (dict_values (primary_fields_by_name ?u))
      = Inr (map (\<lambda>field. ColEq field (BindParam (the (?e (key field)))))
                 (dict_values (primary_fields_by_name ?u)))"
  proof (rule traverse_Inr)
    fix field assume "field \<in> set (dict_values (primary_fields_by_name ?u))"
    then have "key field \<in> set (dict_keys (primary_fields_by_name ?u) @ dict_keys ?uf)"
      using pk_values_keyed unfolding u by auto
    with attrs have "getattr ?e (key field) = Inr (the (?e (key field)))"
      by (rule getattr_the)
    then show "(case getattr ?e (key field) of
                         Inl err \<Rightarrow> Inl err
                       | Inr v \<Rightarrow> Inr (ColEq field (BindParam v)))
       = Inr (ColEq field (BindParam (the (?e (key field)))))"
      by simp
  qed
  have assign: "traverse (\<lambda>field_name. case getattr ?e field_name of
                                 Inl err \<Rightarrow> Inl err
                               | Inr v \<Rightarrow> Inr (field_name, BindParam v))
                (dict_keys ?uf)
      = Inr (map (\<lambda>n. (n, BindParam (the (?e n)))) (dict_keys ?uf))"
  proof (rule traverse_Inr)
    fix n assume "n \<in> set (dict_keys ?uf)"
    then have "n \<in> set (dict_keys (primary_fields_by_name ?u) @ dict_keys ?uf)"
      by simp
    with attrs have "getattr ?e n = Inr (the (?e n))"
      by (rule getattr_the)
    then show "(case getattr ?e n of
                                 Inl err \<Rightarrow> Inl err
                               | Inr v \<Rightarrow> Inr (n, BindParam v))
       = Inr (n, BindParam (the (?e n)))"
      by simp
  qed
  have d: "distinct (map fst (map (\<lambda>n. (n, BindParam (the (?e n)))) (dict_keys ?uf)))"
    using clear_distinct [where mc = mc and ec = ec and pf = pf and s = "Some s" and req = req]
    by (simp add: comp_def u)
  have bound: "session ?u = Some s" and mc: "model_class ?u = mc"
    by (simp_all add: u init_model_class)
  show ?thesis
    by (simp add: update_from_entity_def Let_def build_single_lookup_expr_for_table_def
          lookup assign dict_comp_id [OF d] bound mc execute_def)
qed

lemma update_from_entities_other_sessions:
  assumes "session (updaters w self) = Some s" and "s' \<noteq> s"
  shows "sessions (snd (update_from_entities w self ents req)) s' = sessions w s'"
  using assms
  by (simp add: update_from_entities_def execute_def Let_def
        split: sum.splits option.splits prod.splits)

lemma update_from_entity_other_sessions:
  assumes "session (updaters w self) = Some s" and "s' \<noteq> s"
  shows "sessions (snd (update_from_entity w self e req)) s' = sessions w s'"
  using assms
  by (simp add: update_from_entity_def execute_def Let_def
        split: sum.splits option.splits prod.splits)

lemma update_from_entity_result:
  "fst (update_from_entity w self e req) = Inr r \<Longrightarrow> r = e"
  by (auto simp: update_from_entity_def execute_def Let_def
        split: sum.splits option.splits prod.splits if_splits)

lemma update_from_entities_result:
  "ents \<noteq> [] \<Longrightarrow> fst (update_from_entities w self ents req) = Inr r \<Longrightarrow> r = Some ents"
  by (auto simp: update_from_entities_def execute_def Let_def
        split: sum.splits option.splits prod.splits if_splits)

lemma builders_succeed:
  assumes u: "u = (init mc ec pf)\<lparr>session := s\<rparr>"
    and uf: "uf = clear_update_fields u req"
    and attrs: "\<forall>e\<in>set es. has_attrs e (dict_keys (primary_fields_by_name u) @ dict_keys uf)"
  shows "\<exists>vt stmt. build_virtual_table_with_values_to_update u es uf = Inr vt
                 \<and> build_update_statement u es uf vt = Inr stmt"
proof -
  from virtual_table_built [OF u uf attrs]
  obtain vt where vt: "build_virtual_table_with_values_to_update u es uf = Inr vt"
    and cols: "vcolumns vt = map (\<lambda>(n, f). (n, col_type f)) (primary_fields_by_name u @ uf)"
    by simp
  have names: "map fst (vcolumns vt) = dict_keys (primary_fields_by_name u) @ dict_keys uf"
    unfolding cols by (rule virtual_table_columns)
  from statement_built [OF u uf attrs names]
  obtain stmt where "build_update_statement u es uf vt = Inr stmt"
    by simp
  with vt show ?thesis by blast
qed

section \<open>The worked configuration, evaluated\<close>

lemma order_updater:
  "updaters order_world self = (init order_model order_fields None)\<lparr>session := Some 0\<rparr>"
  by (simp add: order_world_def)

lemma order_pk:
  "primary_fields_by_name (init order_model order_fields None) =
    [(''order_id'', \<lparr> key = ''order_id'', col_type = SaInteger, primary_key = True \<rparr>),
     (''attempt_id'', \<lparr> key = ''attempt_id'', col_type = SaInteger, primary_key = True \<rparr>)]"
  by (simp add: init_def Let_def order_model_def order_fields_def columns_items_def
        dict_comp_def is_primary_key_def dict_keys_def)

lemma order_default:
  "default_update_fields_by_name (init order_model order_fields None) =
    [(''status'', \<lparr> key = ''status'', col_type = SaText, primary_key = False \<rparr>),
     (''total'', \<lparr> key = ''total'', col_type = SaNumeric, primary_key = False \<rparr>)]"
  by (simp add: init_def Let_def order_model_def order_fields_def columns_items_def
        dict_comp_def is_primary_key_def dict_keys_def)

lemma order_resolved_default:
  "clear_update_fields ((init order_model order_fields None)\<lparr>session := s\<rparr>) None =
    [(''status'', \<lparr> key = ''status'', col_type = SaText, primary_key = False \<rparr>),
     (''total'', \<lparr> key = ''total'', col_type = SaNumeric, primary_key = False \<rparr>)]"
  by (simp add: clear_update_fields_def order_default)

lemma order_requested:
  "clear_update_fields ((init order_model order_fields None)\<lparr>session := s\<rparr>)
       (Some [''total'', ''order_id'', ''nope'', ''total'']) =
    [(''total'', \<lparr> key = ''total'', col_type = SaNumeric, primary_key = False \<rparr>)]"
  by (simp add: clear_update_fields_def order_pk order_default dict_comp_def dict_keys_def)

lemma order_entities_readable:
  "has_attrs (entities order_world r) [''order_id'', ''attempt_id'', ''status'', ''total'']"
  by (simp add: order_world_def has_attrs_def order_paid_def order_failed_def)

lemma order_keys_distinct: "distinct (map key (table_columns order_model))"
  by (simp add: order_model_def)

lemma order_orm_model_fields:
  "orm_model_fields (init order_model order_fields None) =
    [(''order_id'', \<lparr> key = ''order_id'', col_type = SaInteger, primary_key = True \<rparr>),
     (''attempt_id'', \<lparr> key = ''attempt_id'', col_type = SaInteger, primary_key = True \<rparr>),
     (''status'', \<lparr> key = ''status'', col_type = SaText, primary_key = False \<rparr>),
     (''total'', \<lparr> key = ''total'', col_type = SaNumeric, primary_key = False \<rparr>)]"
  by (simp add: init_def Let_def order_model_def columns_items_def)

lemma order_virtual_table:
  "build_virtual_table_with_values_to_update
      ((init order_model order_fields None)\<lparr>session := Some 0\<rparr>)
      [order_paid, order_failed]
      (clear_update_fields ((init order_model order_fields None)\<lparr>session := Some 0\<rparr>) None)
   = Inr \<lparr> vname = ''new_data'',
           vcolumns = [(''order_id'', SaInteger), (''attempt_id'', SaInteger),
                       (''status'', SaText), (''total'', SaNumeric)],
           vdata = [[Raw (PyInt 1), Raw (PyInt 1), Raw (PyStr ''paid''), NullCast SaNumeric],
                    [Raw (PyInt 1), Raw (PyInt 2), Raw (PyStr ''failed''), Raw (PyInt 50)]] \<rparr>"
  by (simp add: build_virtual_table_with_values_to_update_def order_resolved_default order_pk
        dict_keys_def row_cell_def getattr_def order_paid_def order_failed_def
        order_orm_model_fields)

lemma order_attrs_default:
  "\<forall>r\<in>set ents. has_attrs (entities order_world r)
           (dict_keys (primary_fields_by_name (updaters order_world self))
            @ dict_keys (clear_update_fields (updaters order_world self) None))"
  using order_entities_readable
  by (simp add: order_updater order_pk order_resolved_default dict_keys_def)

section \<open>Claims\<close>

subsection \<open>C1: an empty primary key at construction\<close>

text \<open>
  C1, as stated: a configuration whose resolved primary-key fields are empty makes construction
  fail with a ConfigurationError, so that no instance with an empty primary-key set exists.
  \<^verbatim>\<open>__init__\<close> has no check and no \<^verbatim>\<open>raise\<close>: for a table without a declared primary key
  it returns an instance whose \<^verbatim>\<open>_primary_fields_by_name\<close> is empty and whose one common
  field is updatable.
\<close>

theorem init_empty_primary_key_counterexample:
  "primary_fields_by_name (init log_model [''message''] None) = []
   \<and> dict_keys (default_update_fields_by_name (init log_model [''message''] None)) = [''message'']"
  by (simp add: init_def Let_def log_model_def columns_items_def
        dict_comp_def is_primary_key_def dict_keys_def)

text \<open>
  C1, amended: construction checks nothing about the resolved primary-key fields and always
  yields an instance; that instance's primary-key mapping is empty exactly when no column of
  the row schema passes the primary-key test.
\<close>

theorem init_primary_key_may_be_empty:
  "primary_fields_by_name (init mc ec pf) = []
     \<longleftrightarrow> (\<forall>c\<in>set (table_columns mc). \<not> is_primary_key pf (key c) c)"
proof -
  have "primary_fields_by_name (init mc ec pf) = []
      \<longleftrightarrow> set (dict_keys (primary_fields_by_name ((init mc ec pf)\<lparr>session := None\<rparr>))) = {}"
    by (simp add: init_session_None dict_keys_def)
  also have "\<dots> \<longleftrightarrow> (\<forall>c\<in>set (table_columns mc). \<not> is_primary_key pf (key c) c)"
    unfolding pk_keys by auto
  finally show ?thesis .
qed

theorem init_primary_key_may_be_empty_witness:
  "list_all (\<lambda>c. \<not> is_primary_key (Some {}) (key c) c) (table_columns order_model)
   \<and> primary_fields_by_name (init order_model order_fields (Some {})) = []"
  using init_primary_key_may_be_empty [of order_model order_fields "Some {}"]
  by (simp add: is_primary_key_def list_all_iff)

subsection \<open>C2: the empty batch\<close>

text \<open>
  C2: for the empty entity list \<^verbatim>\<open>update_from_entities\<close> returns \<^verbatim>\<open>None\<close> at once; the
  world is the one it was called in, so no statement was built or executed on any session
  (whether or not a session is bound).
\<close>

theorem update_from_entities_empty:
  "update_from_entities w self [] update_fields = (Inr None, w)"
  by (simp add: update_from_entities_def)

subsection \<open>C3: one statement per non-empty batch\<close>

text \<open>
  C3: for a constructed updater bound to session \<open>s\<close> and a non-empty list of entities that
  carry the primary-key fields and the resolved update fields, \<^verbatim>\<open>update_from_entities\<close>
  changes the world in one way only: exactly one statement is appended to the statements
  executed on \<open>s\<close>, whatever the length of the list.
\<close>

theorem update_from_entities_one_statement:
  assumes "updaters w self = (init mc ec pf)\<lparr>session := Some s\<rparr>"
    and "ents \<noteq> []"
    and "\<forall>r\<in>set ents. has_attrs (entities w r)
           (dict_keys (primary_fields_by_name (updaters w self))
            @ dict_keys (clear_update_fields (updaters w self) req))"
  shows "\<exists>stmt. snd (update_from_entities w self ents req) =
           w\<lparr> sessions := (sessions w)
                 (s := (sessions w s)\<lparr> executed := executed (sessions w s) @ [stmt] \<rparr>) \<rparr>"
  using bulk_update_result [OF assms] by auto

theorem update_from_entities_one_statement_witness:
  "updaters order_world 0 = (init order_model order_fields None)\<lparr>session := Some 0\<rparr>
   \<and> [0, 1] \<noteq> ([] :: ref list)
   \<and> list_all (\<lambda>r. has_attrs (entities order_world r)
           (dict_keys (primary_fields_by_name (updaters order_world 0))
            @ dict_keys (clear_update_fields (updaters order_world 0) None))) [0, 1]
   \<and> (\<exists>stmt. snd (update_from_entities order_world 0 [0, 1] None) =
           order_world\<lparr> sessions := (sessions order_world)
                 (0 := (sessions order_world 0)
                    \<lparr> executed := executed (sessions order_world 0) @ [stmt] \<rparr>) \<rparr>)"
proof -
  have h1: "updaters order_world 0 = (init order_model order_fields None)\<lparr>session := Some 0\<rparr>"
    by (rule order_updater)
  have h2: "[0, 1] \<noteq> ([] :: ref list)"
    by simp
  have h3: "\<forall>r\<in>set [0, 1]. has_attrs (entities order_world r)
           (dict_keys (primary_fields_by_name (updaters order_world 0))
            @ dict_keys (clear_update_fields (updaters order_world 0) None))"
    using order_entities_readable
    by (simp add: order_updater order_pk order_resolved_default dict_keys_def)
  from h3 have h3': "list_all (\<lambda>r. has_attrs (entities order_world r)
           (dict_keys (primary_fields_by_name (updaters order_world 0))
            @ dict_keys (clear_update_fields (updaters order_world 0) None))) [0, 1]"
    by (simp only: list_all_iff)
  from update_from_entities_one_statement [OF h1 h2 h3] h1 h2 h3' show ?thesis
    by (intro conjI) assumption+
qed

subsection \<open>C4: resolving the update fields of a call\<close>

text \<open>
  C4: \<^verbatim>\<open>_clear_update_fields\<close> returns the cached default fields when no names are requested;
  for requested names it returns those that are default update fields and not primary-key
  fields, each with its column of the row schema, and it has no error result. Whatever is
  requested, the resolved fields and the primary-key fields are disjoint, and the keys of the
  \<^verbatim>\<open>SET\<close> clause of the statement built from them are the resolved fields.
\<close>

theorem clear_update_fields_resolution:
  assumes "u = (init mc ec pf)\<lparr>session := s\<rparr>"
  shows "clear_update_fields u None = default_update_fields_by_name u
       \<and> set (dict_keys (clear_update_fields u (Some names)))
           = {n \<in> set names. n \<in> set (dict_keys (default_update_fields_by_name u))
                            \<and> n \<notin> set (dict_keys (primary_fields_by_name u))}
       \<and> (\<forall>(n, f) \<in> set (clear_update_fields u req). map_of (columns_items mc) n = Some f)
       \<and> set (dict_keys (clear_update_fields u req))
           \<inter> set (dict_keys (primary_fields_by_name u)) = {}
       \<and> (\<forall>es vt stmt. build_update_statement u es (clear_update_fields u req) vt = Inr stmt
            \<longrightarrow> set (dict_keys (set_values stmt)) = set (dict_keys (clear_update_fields u req))
              \<and> set (dict_keys (set_values stmt))
                  \<inter> set (dict_keys (primary_fields_by_name u)) = {})"
proof -
  have a: "clear_update_fields u None = default_update_fields_by_name u"
    by (simp add: clear_update_fields_def)
  have b: "set (dict_keys (clear_update_fields u (Some names)))
           = {n \<in> set names. n \<in> set (dict_keys (default_update_fields_by_name u))
                            \<and> n \<notin> set (dict_keys (primary_fields_by_name u))}"
    by (rule clear_keys_requested)
  have c: "\<forall>(n, f) \<in> set (clear_update_fields u req). map_of (columns_items mc) n = Some f"
    using clear_entry [where u = u and req = req] default_entry [where mc = mc and ec = ec and pf = pf and s = s]
    unfolding assms by blast
  have d: "set (dict_keys (clear_update_fields u req))
           \<inter> set (dict_keys (primary_fields_by_name u)) = {}"
  proof -
    have "n \<notin> set (dict_keys (primary_fields_by_name u))"
      if "n \<in> set (dict_keys (clear_update_fields u req))" for n
    proof -
      from that obtain f where "(n, f) \<in> set (clear_update_fields u req)"
        by (auto simp: dict_keys_def)
      then have "(n, f) \<in> set (default_update_fields_by_name u)"
        by (rule clear_entry)
      then show ?thesis
        using default_entry [where n = n and f = f and mc = mc and ec = ec and pf = pf and s = s] unfolding assms by blast
    qed
    then show ?thesis by blast
  qed
  have e: "\<forall>es vt stmt. build_update_statement u es (clear_update_fields u req) vt = Inr stmt
            \<longrightarrow> set (dict_keys (set_values stmt)) = set (dict_keys (clear_update_fields u req))
              \<and> set (dict_keys (set_values stmt))
                  \<inter> set (dict_keys (primary_fields_by_name u)) = {}"
    using d set_clause_keys by metis
  from a b c d e show ?thesis by blast
qed

theorem clear_update_fields_resolution_witness:
  "\<exists>vt stmt.
     build_update_statement ((init order_model order_fields None)\<lparr>session := Some 0\<rparr>)
         [order_paid, order_failed]
         (clear_update_fields ((init order_model order_fields None)\<lparr>session := Some 0\<rparr>)
            (Some [''total'', ''order_id'', ''nope'', ''total''])) vt = Inr stmt
     \<and> set (dict_keys (set_values stmt)) = {''total''}
     \<and> set (dict_keys (set_values stmt))
         \<inter> set (dict_keys (primary_fields_by_name
                   ((init order_model order_fields None)\<lparr>session := Some 0\<rparr>))) = {}"
proof -
  let ?u = "(init order_model order_fields None)\<lparr>session := Some 0\<rparr>"
  let ?req = "Some [''total'', ''order_id'', ''nope'', ''total'']"
  let ?es = "[order_paid, order_failed]"
  have attrs: "\<forall>e\<in>set ?es. has_attrs e (dict_keys (primary_fields_by_name ?u)
                                           @ dict_keys (clear_update_fields ?u ?req))"
    by (simp add: order_requested order_pk dict_keys_def has_attrs_def
          order_paid_def order_failed_def)
  from builders_succeed [OF refl refl attrs]
  obtain vt stmt where stmt: "build_update_statement ?u ?es (clear_update_fields ?u ?req) vt = Inr stmt"
    by blast
  have "\<forall>es vt stmt. build_update_statement ?u es (clear_update_fields ?u ?req) vt = Inr stmt
            \<longrightarrow> set (dict_keys (set_values stmt)) = set (dict_keys (clear_update_fields ?u ?req))
              \<and> set (dict_keys (set_values stmt))
                  \<inter> set (dict_keys (primary_fields_by_name ?u)) = {}"
    using clear_update_fields_resolution
          [OF refl, where mc = order_model and ec = order_fields and pf = None and s = "Some 0"
             and req = ?req]
    by blast
  with stmt have "set (dict_keys (set_values stmt)) = set (dict_keys (clear_update_fields ?u ?req))
              \<and> set (dict_keys (set_values stmt))
                  \<inter> set (dict_keys (primary_fields_by_name ?u)) = {}"
    by blast
  moreover have "set (dict_keys (clear_update_fields ?u ?req)) = {''total''}"
    by (simp add: order_requested dict_keys_def)
  ultimately show ?thesis
    using stmt by auto
qed

subsection \<open>C5: the column order of the virtual table\<close>

text \<open>
  C5: the columns of the \<^verbatim>\<open>VALUES\<close> table are the primary-key fields, in the order of the
  table's columns, followed by the resolved update fields, in the order of the resolved mapping
  (the entity class's field order when no names are requested, the order of the request
  otherwise). There is one row per entity, in the order of the list, and the cell at position
  \<open>j\<close> of each row is the cell computed for that entity and the name of column \<open>j\<close>.
\<close>

theorem virtual_table_column_order:
  assumes u: "u = (init mc ec pf)\<lparr>session := s\<rparr>"
    and uf: "uf = clear_update_fields u req"
    and attrs: "\<forall>e\<in>set es. has_attrs e (dict_keys (primary_fields_by_name u) @ dict_keys uf)"
    and keys: "distinct (map key (table_columns mc))"
  shows "\<exists>vt. build_virtual_table_with_values_to_update u es uf = Inr vt
          \<and> map fst (vcolumns vt) = dict_keys (primary_fields_by_name u) @ dict_keys uf
          \<and> dict_keys (primary_fields_by_name u)
              = map key (filter (\<lambda>c. is_primary_key pf (key c) c) (table_columns mc))
          \<and> length (vdata vt) = length es
          \<and> (\<forall>i<length es. length (vdata vt ! i) = length (vcolumns vt)
                \<and> (\<forall>j<length (vcolumns vt).
                      row_cell u (es ! i) (fst (vcolumns vt ! j)) = Inr (vdata vt ! i ! j)))"
proof -
  let ?names = "dict_keys (primary_fields_by_name u) @ dict_keys uf"
  let ?vt = "\<lparr> vname = ''new_data'',
                 vcolumns = map (\<lambda>(n, f). (n, col_type f)) (primary_fields_by_name u @ uf),
                 vdata = map (\<lambda>e. map (\<lambda>n. projr (row_cell u e n)) ?names) es \<rparr>"
  have built: "build_virtual_table_with_values_to_update u es uf = Inr ?vt"
    by (rule virtual_table_built [OF u uf attrs])
  have names: "map fst (vcolumns ?vt) = ?names"
    by (simp add: dict_keys_def comp_def case_prod_unfold)
  have pk: "dict_keys (primary_fields_by_name u)
              = map key (filter (\<lambda>c. is_primary_key pf (key c) c) (table_columns mc))"
    by (simp add: u pk_ordered [OF keys] dict_keys_def comp_def)
  have len: "length (vcolumns ?vt) = length ?names"
    by (simp add: dict_keys_def)
  have rows: "length (vdata ?vt ! i) = length (vcolumns ?vt)
      \<and> (\<forall>j<length (vcolumns ?vt).
            row_cell u (es ! i) (fst (vcolumns ?vt ! j)) = Inr (vdata ?vt ! i ! j))"
    if i: "i < length es" for i
  proof -
    have row: "vdata ?vt ! i = map (\<lambda>n. projr (row_cell u (es ! i) n)) ?names"
      using i by simp
    have "row_cell u (es ! i) (fst (vcolumns ?vt ! j)) = Inr (vdata ?vt ! i ! j)"
      if j: "j < length (vcolumns ?vt)" for j
    proof -
      from j len have j': "j < length ?names" by simp
      have nm: "fst (vcolumns ?vt ! j) = ?names ! j"
        using j nth_map [of j "vcolumns ?vt" fst] names by simp
      from j' have mem: "?names ! j \<in> set ?names"
        by (rule nth_mem)
      from i attrs have "has_attrs (es ! i) ?names"
        by simp
      then obtain y where "row_cell u (es ! i) (?names ! j) = Inr y"
        using row_cell_defined [OF u, where e = "es ! i" and req = req and n = "?names ! j"] mem
        unfolding uf by blast
      then have "row_cell u (es ! i) (?names ! j) = Inr (projr (row_cell u (es ! i) (?names ! j)))"
        by simp
      moreover have "map (\<lambda>n. projr (row_cell u (es ! i) n)) ?names ! j
          = projr (row_cell u (es ! i) (?names ! j))"
        using j' by (rule nth_map)
      ultimately show ?thesis
        unfolding nm row by (simp only:)
    qed
    then show ?thesis
      unfolding row using len by simp
  qed
  from built names pk rows show ?thesis
    by (intro exI [of _ ?vt]) simp
qed

theorem virtual_table_column_order_witness:
  "list_all
     (\<lambda>e. has_attrs e (dict_keys (primary_fields_by_name
                               ((init order_model order_fields None)\<lparr>session := Some 0\<rparr>))
                   @ dict_keys (clear_update_fields
                               ((init order_model order_fields None)\<lparr>session := Some 0\<rparr>) None)))
     [order_paid, order_failed]
   \<and> distinct (map key (table_columns order_model))
   \<and> (\<exists>vt. build_virtual_table_with_values_to_update
              ((init order_model order_fields None)\<lparr>session := Some 0\<rparr>)
              [order_paid, order_failed]
              (clear_update_fields ((init order_model order_fields None)\<lparr>session := Some 0\<rparr>) None)
            = Inr vt
          \<and> map fst (vcolumns vt) = [''order_id'', ''attempt_id'', ''status'', ''total'']
          \<and> length (vdata vt) = 2
          \<and> (\<forall>i<2. length (vdata vt ! i) = length (vcolumns vt)))"
proof -
  let ?u = "(init order_model order_fields None)\<lparr>session := Some 0\<rparr>"
  let ?es = "[order_paid, order_failed]"
  have attrs: "\<forall>e\<in>set ?es. has_attrs e (dict_keys (primary_fields_by_name ?u)
                                           @ dict_keys (clear_update_fields ?u None))"
    by (simp add: order_resolved_default order_pk dict_keys_def has_attrs_def
          order_paid_def order_failed_def)
  have names: "dict_keys (primary_fields_by_name ?u) @ dict_keys (clear_update_fields ?u None)
      = [''order_id'', ''attempt_id'', ''status'', ''total'']"
    by (simp add: order_resolved_default order_pk dict_keys_def)
  from virtual_table_column_order [OF refl refl attrs order_keys_distinct]
  obtain vt where
    "build_virtual_table_with_values_to_update ?u ?es (clear_update_fields ?u None) = Inr vt"
    "map fst (vcolumns vt)
       = dict_keys (primary_fields_by_name ?u) @ dict_keys (clear_update_fields ?u None)"
    "length (vdata vt) = length ?es"
    "\<forall>i<length ?es. length (vdata vt ! i) = length (vcolumns vt)"
    by blast
  then have "build_virtual_table_with_values_to_update ?u ?es (clear_update_fields ?u None) = Inr vt
          \<and> map fst (vcolumns vt) = [''order_id'', ''attempt_id'', ''status'', ''total'']
          \<and> length (vdata vt) = 2
          \<and> (\<forall>i<2. length (vdata vt ! i) = length (vcolumns vt))"
    using names by simp
  then have "\<exists>vt. build_virtual_table_with_values_to_update ?u ?es (clear_update_fields ?u None) = Inr vt
          \<and> map fst (vcolumns vt) = [''order_id'', ''attempt_id'', ''status'', ''total'']
          \<and> length (vdata vt) = 2
          \<and> (\<forall>i<2. length (vdata vt ! i) = length (vcolumns vt))"
    by (rule exI)
  moreover from attrs have "list_all
     (\<lambda>e. has_attrs e (dict_keys (primary_fields_by_name ?u)
                   @ dict_keys (clear_update_fields ?u None))) ?es"
    by (simp only: list_all_iff)
  ultimately show ?thesis
    using order_keys_distinct by (intro conjI) assumption+
qed

subsection \<open>C6: typed nulls in the virtual table\<close>

text \<open>
  C6: in the data of the \<^verbatim>\<open>VALUES\<close> table, the cell of an entity under a column is computed
  from the entity's attribute of that name: when the attribute is \<^verbatim>\<open>None\<close> the cell is a null
  cast to the declared type of the table column of that name, and otherwise the cell is the
  attribute's value as it is.
\<close>

theorem null_cast_typed:
  assumes u: "u = (init mc ec pf)\<lparr>session := s\<rparr>"
    and uf: "uf = clear_update_fields u req"
    and attrs: "\<forall>e\<in>set es. has_attrs e (dict_keys (primary_fields_by_name u) @ dict_keys uf)"
  shows "\<exists>vt. build_virtual_table_with_values_to_update u es uf = Inr vt
          \<and> length (vdata vt) = length es
          \<and> (\<forall>i<length es. length (vdata vt ! i) = length (vcolumns vt)
                \<and> (\<forall>j<length (vcolumns vt). \<exists>v field.
                       (es ! i) (fst (vcolumns vt ! j)) = Some v
                     \<and> map_of (columns_items mc) (fst (vcolumns vt ! j)) = Some field
                     \<and> vdata vt ! i ! j
                         = (if v = PyNone then NullCast (col_type field) else Raw v)))"
proof -
  let ?names = "dict_keys (primary_fields_by_name u) @ dict_keys uf"
  let ?vt = "\<lparr> vname = ''new_data'',
                 vcolumns = map (\<lambda>(n, f). (n, col_type f)) (primary_fields_by_name u @ uf),
                 vdata = map (\<lambda>e. map (\<lambda>n. projr (row_cell u e n)) ?names) es \<rparr>"
  have built: "build_virtual_table_with_values_to_update u es uf = Inr ?vt"
    by (rule virtual_table_built [OF u uf attrs])
  have names: "map fst (vcolumns ?vt) = ?names"
    by (simp add: dict_keys_def comp_def case_prod_unfold)
  have len: "length (vcolumns ?vt) = length ?names"
    by (simp add: dict_keys_def)
  have rows: "length (vdata ?vt ! i) = length (vcolumns ?vt)
      \<and> (\<forall>j<length (vcolumns ?vt). \<exists>v field.
             (es ! i) (fst (vcolumns ?vt ! j)) = Some v
           \<and> map_of (columns_items mc) (fst (vcolumns ?vt ! j)) = Some field
           \<and> vdata ?vt ! i ! j = (if v = PyNone then NullCast (col_type field) else Raw v))"
    if i: "i < length es" for i
  proof -
    have row: "vdata ?vt ! i = map (\<lambda>n. projr (row_cell u (es ! i) n)) ?names"
      using i by simp
    have "\<exists>v field. (es ! i) (fst (vcolumns ?vt ! j)) = Some v
           \<and> map_of (columns_items mc) (fst (vcolumns ?vt ! j)) = Some field
           \<and> vdata ?vt ! i ! j = (if v = PyNone then NullCast (col_type field) else Raw v)"
      if j: "j < length (vcolumns ?vt)" for j
    proof -
      from j len have j': "j < length ?names" by simp
      have nm: "fst (vcolumns ?vt ! j) = ?names ! j"
        using j nth_map [of j "vcolumns ?vt" fst] names by simp
      from j' have mem: "?names ! j \<in> set ?names"
        by (rule nth_mem)
      from i attrs have "has_attrs (es ! i) ?names"
        by simp
      then obtain v field where v: "(es ! i) (?names ! j) = Some v"
        and field: "map_of (columns_items mc) (?names ! j) = Some field"
        and cell: "row_cell u (es ! i) (?names ! j)
                     = Inr (if v = PyNone then NullCast (col_type field) else Raw v)"
        using row_cell_defined [OF u, where e = "es ! i" and req = req and n = "?names ! j"] mem
        unfolding uf by blast
      have "map (\<lambda>n. projr (row_cell u (es ! i) n)) ?names ! j
          = projr (row_cell u (es ! i) (?names ! j))"
        using j' by (rule nth_map)
      with cell have "vdata ?vt ! i ! j = (if v = PyNone then NullCast (col_type field) else Raw v)"
        unfolding row by (simp only: sum.sel)
      with v field show ?thesis
        unfolding nm by blast
    qed
    then show ?thesis
      unfolding row using len by simp
  qed
  from built rows show ?thesis
    by (intro exI [of _ ?vt]) simp
qed

theorem null_cast_typed_witness:
  "list_all
     (\<lambda>e. has_attrs e (dict_keys (primary_fields_by_name
                               ((init order_model order_fields None)\<lparr>session := Some 0\<rparr>))
                   @ dict_keys (clear_update_fields
                               ((init order_model order_fields None)\<lparr>session := Some 0\<rparr>) None)))
     [order_paid, order_failed]
   \<and> (\<exists>vt. build_virtual_table_with_values_to_update
              ((init order_model order_fields None)\<lparr>session := Some 0\<rparr>)
              [order_paid, order_failed]
              (clear_update_fields ((init order_model order_fields None)\<lparr>session := Some 0\<rparr>) None)
            = Inr vt
          \<and> order_paid (fst (vcolumns vt ! 3)) = Some PyNone
          \<and> map_of (columns_items order_model) (fst (vcolumns vt ! 3))
              = Some \<lparr> key = ''total'', col_type = SaNumeric, primary_key = False \<rparr>
          \<and> vdata vt ! 0 ! 3 = NullCast SaNumeric)"
proof -
  let ?u = "(init order_model order_fields None)\<lparr>session := Some 0\<rparr>"
  let ?es = "[order_paid, order_failed]"
  let ?total = "\<lparr> key = ''total'', col_type = SaNumeric, primary_key = False \<rparr>"
  have attrs: "\<forall>e\<in>set ?es. has_attrs e (dict_keys (primary_fields_by_name ?u)
                                           @ dict_keys (clear_update_fields ?u None))"
    by (simp add: order_resolved_default order_pk dict_keys_def has_attrs_def
          order_paid_def order_failed_def)
  from null_cast_typed [OF refl refl attrs]
  obtain vt where built:
      "build_virtual_table_with_values_to_update ?u ?es (clear_update_fields ?u None) = Inr vt"
    and cells: "\<forall>i<length ?es. length (vdata vt ! i) = length (vcolumns vt)
                \<and> (\<forall>j<length (vcolumns vt). \<exists>v field.
                       (?es ! i) (fst (vcolumns vt ! j)) = Some v
                     \<and> map_of (columns_items order_model) (fst (vcolumns vt ! j)) = Some field
                     \<and> vdata vt ! i ! j
                         = (if v = PyNone then NullCast (col_type field) else Raw v))"
    by blast
  from built have cols: "vcolumns vt = [(''order_id'', SaInteger), (''attempt_id'', SaInteger),
                       (''status'', SaText), (''total'', SaNumeric)]"
    by (auto simp: order_virtual_table)
  have paid: "order_paid ''total'' = Some PyNone"
    by (simp add: order_paid_def)
  have total: "map_of (columns_items order_model) ''total'' = Some ?total"
    by (simp add: columns_items_def order_model_def)
  have i0: "0 < length ?es"
    by simp
  have j3: "3 < length (vcolumns vt)" and n3: "fst (vcolumns vt ! 3) = ''total''"
    by (simp_all add: cols)
  from cells [rule_format, OF i0]
  have "\<forall>j<length (vcolumns vt). \<exists>v field.
                       (?es ! 0) (fst (vcolumns vt ! j)) = Some v
                     \<and> map_of (columns_items order_model) (fst (vcolumns vt ! j)) = Some field
                     \<and> vdata vt ! 0 ! j
                         = (if v = PyNone then NullCast (col_type field) else Raw v)"
    by (rule conjunct2)
  with j3 obtain v field where "(?es ! 0) (fst (vcolumns vt ! 3)) = Some v"
    and "map_of (columns_items order_model) (fst (vcolumns vt ! 3)) = Some field"
    and "vdata vt ! 0 ! 3 = (if v = PyNone then NullCast (col_type field) else Raw v)"
    by blast
  with paid total have "vdata vt ! 0 ! 3 = NullCast SaNumeric"
    unfolding n3 by simp
  with built paid total cols
  have "build_virtual_table_with_values_to_update ?u ?es (clear_update_fields ?u None) = Inr vt
          \<and> order_paid (fst (vcolumns vt ! 3)) = Some PyNone
          \<and> map_of (columns_items order_model) (fst (vcolumns vt ! 3)) = Some ?total
          \<and> vdata vt ! 0 ! 3 = NullCast SaNumeric"
    by simp
  then have "\<exists>vt. build_virtual_table_with_values_to_update ?u ?es (clear_update_fields ?u None) = Inr vt
          \<and> order_paid (fst (vcolumns vt ! 3)) = Some PyNone
          \<and> map_of (columns_items order_model) (fst (vcolumns vt ! 3)) = Some ?total
          \<and> vdata vt ! 0 ! 3 = NullCast SaNumeric"
    by (rule exI)
  moreover from attrs have "list_all
     (\<lambda>e. has_attrs e (dict_keys (primary_fields_by_name ?u)
                   @ dict_keys (clear_update_fields ?u None))) ?es"
    by (simp only: list_all_iff)
  ultimately show ?thesis
    by (intro conjI) assumption+
qed

subsection \<open>C7: the shape of the bulk statement\<close>

text \<open>
  C7: for a non-empty batch the one statement executed targets the model's table; its
  \<^verbatim>\<open>WHERE\<close> clause is the conjunction of the filter (for every primary-key column, the column
  is \<^verbatim>\<open>IN\<close> the list of all entities' values of it) and the join (for every primary-key
  column, the column equals the column of the same name of the \<^verbatim>\<open>VALUES\<close> table); its
  \<^verbatim>\<open>SET\<close> clause assigns to every resolved update field the column of the same name of the
  \<^verbatim>\<open>VALUES\<close> table. Both predicates run over all primary-key fields, one or many, and so do
  the columns of the \<^verbatim>\<open>VALUES\<close> table.
\<close>

theorem bulk_statement_shape:
  assumes u: "updaters w self = (init mc ec pf)\<lparr>session := Some s\<rparr>"
    and ne: "ents \<noteq> []"
    and attrs: "\<forall>r\<in>set ents. has_attrs (entities w r)
                  (dict_keys (primary_fields_by_name (updaters w self))
                   @ dict_keys (clear_update_fields (updaters w self) req))"
  shows "\<exists>vt stmt.
           build_virtual_table_with_values_to_update (updaters w self) (map (entities w) ents)
               (clear_update_fields (updaters w self) req) = Inr vt
         \<and> executed (sessions (snd (update_from_entities w self ents req)) s)
             = executed (sessions w s) @ [stmt]
         \<and> target stmt = mc
         \<and> whereclause stmt =
             AndAll
               [AndAll (map (\<lambda>field. ColIn field (map (\<lambda>r. the (entities w r (key field))) ents))
                            (dict_values (primary_fields_by_name (updaters w self)))),
                AndAll (map (\<lambda>field. ColEq field (ValuesColumn vt (key field)))
                            (dict_values (primary_fields_by_name (updaters w self))))]
         \<and> set_values stmt =
             map (\<lambda>field_name. (field_name, ValuesColumn vt field_name))
                 (dict_keys (clear_update_fields (updaters w self) req))
         \<and> map key (dict_values (primary_fields_by_name (updaters w self)))
             = dict_keys (primary_fields_by_name (updaters w self))
         \<and> map fst (vcolumns vt)
             = dict_keys (primary_fields_by_name (updaters w self))
               @ dict_keys (clear_update_fields (updaters w self) req)"
proof -
  let ?u = "updaters w self"
  let ?uf = "clear_update_fields ?u req"
  let ?es = "map (entities w) ents"
  have attrs': "\<forall>e\<in>set ?es. has_attrs e (dict_keys (primary_fields_by_name ?u) @ dict_keys ?uf)"
    using attrs by simp
  from bulk_update_result [OF u ne attrs]
  obtain vt stmt where vt: "build_virtual_table_with_values_to_update ?u ?es ?uf = Inr vt"
    and stmt: "build_update_statement ?u ?es ?uf vt = Inr stmt"
    and run: "update_from_entities w self ents req =
             (if failing (sessions w s) then Inl DBAPIError else Inr (Some ents),
              w\<lparr> sessions := (sessions w)
                    (s := (sessions w s)\<lparr> executed := executed (sessions w s) @ [stmt] \<rparr>) \<rparr>)"
    by blast
  from vt virtual_table_built [OF u refl attrs']
  have "vcolumns vt = map (\<lambda>(n, f). (n, col_type f)) (primary_fields_by_name ?u @ ?uf)"
    by auto
  then have names: "map fst (vcolumns vt) = dict_keys (primary_fields_by_name ?u) @ dict_keys ?uf"
    by (simp add: dict_keys_def comp_def case_prod_unfold)
  from stmt statement_built [OF u refl attrs' names]
  have shape: "stmt = \<lparr> target = mc,
                 whereclause =
                   AndAll
                     [AndAll (map (\<lambda>field. ColIn field (map (\<lambda>e. the (e (key field))) ?es))
                                  (dict_values (primary_fields_by_name ?u))),
                      AndAll (map (\<lambda>table_field.
                                      ColEq table_field (ValuesColumn vt (key table_field)))
                                  (dict_values (primary_fields_by_name ?u)))],
                 set_values = map (\<lambda>field_name. (field_name, ValuesColumn vt field_name))
                                  (dict_keys ?uf) \<rparr>"
    by simp
  have logged: "executed (sessions (snd (update_from_entities w self ents req)) s)
             = executed (sessions w s) @ [stmt]"
    by (simp add: run)
  have keyed: "map key (dict_values (primary_fields_by_name ?u)) = dict_keys (primary_fields_by_name ?u)"
    unfolding u by (rule pk_values_keys)
  have "target stmt = mc"
    and "whereclause stmt =
             AndAll
               [AndAll (map (\<lambda>field. ColIn field (map (\<lambda>r. the (entities w r (key field))) ents))
                            (dict_values (primary_fields_by_name ?u))),
                AndAll (map (\<lambda>field. ColEq field (ValuesColumn vt (key field)))
                            (dict_values (primary_fields_by_name ?u)))]"
    and "set_values stmt = map (\<lambda>field_name. (field_name, ValuesColumn vt field_name)) (dict_keys ?uf)"
    by (simp_all add: shape comp_def)
  with vt logged keyed names show ?thesis
    by blast
qed

theorem bulk_statement_shape_witness:
  "updaters order_world 0 = (init order_model order_fields None)\<lparr>session := Some 0\<rparr>
   \<and> [0, 1] \<noteq> ([] :: ref list)
   \<and> list_all (\<lambda>r. has_attrs (entities order_world r)
           (dict_keys (primary_fields_by_name (updaters order_world 0))
            @ dict_keys (clear_update_fields (updaters order_world 0) None))) [0, 1]
   \<and> (\<exists>vt stmt.
         executed (sessions (snd (update_from_entities order_world 0 [0, 1] None)) 0) = [stmt]
       \<and> target stmt = order_model
       \<and> whereclause stmt =
           AndAll
             [AndAll
                [ColIn \<lparr> key = ''order_id'', col_type = SaInteger, primary_key = True \<rparr>
                   [PyInt 1, PyInt 1],
                 ColIn \<lparr> key = ''attempt_id'', col_type = SaInteger, primary_key = True \<rparr>
                   [PyInt 1, PyInt 2]],
              AndAll
                [ColEq \<lparr> key = ''order_id'', col_type = SaInteger, primary_key = True \<rparr>
                   (ValuesColumn vt ''order_id''),
                 ColEq \<lparr> key = ''attempt_id'', col_type = SaInteger, primary_key = True \<rparr>
                   (ValuesColumn vt ''attempt_id'')]]
       \<and> set_values stmt =
           [(''status'', ValuesColumn vt ''status''), (''total'', ValuesColumn vt ''total'')])"
proof -
  have h1: "updaters order_world 0 = (init order_model order_fields None)\<lparr>session := Some 0\<rparr>"
    by (rule order_updater)
  have h2: "[0, 1] \<noteq> ([] :: ref list)"
    by simp
  have h3: "\<forall>r\<in>set [0, 1]. has_attrs (entities order_world r)
           (dict_keys (primary_fields_by_name (updaters order_world 0))
            @ dict_keys (clear_update_fields (updaters order_world 0) None))"
    by (rule order_attrs_default)
  from h3 have h3': "list_all (\<lambda>r. has_attrs (entities order_world r)
           (dict_keys (primary_fields_by_name (updaters order_world 0))
            @ dict_keys (clear_update_fields (updaters order_world 0) None))) [0, 1]"
    by (simp only: list_all_iff)
  from bulk_statement_shape [OF h1 h2 h3]
  obtain vt stmt where
    logged: "executed (sessions (snd (update_from_entities order_world 0 [0, 1] None)) 0)
             = executed (sessions order_world 0) @ [stmt]"
    and tgt: "target stmt = order_model"
    and wh: "whereclause stmt =
             AndAll
               [AndAll (map (\<lambda>field. ColIn field
                               (map (\<lambda>r. the (entities order_world r (key field))) [0, 1]))
                            (dict_values (primary_fields_by_name (updaters order_world 0)))),
                AndAll (map (\<lambda>field. ColEq field (ValuesColumn vt (key field)))
                            (dict_values (primary_fields_by_name (updaters order_world 0))))]"
    and sv: "set_values stmt =
             map (\<lambda>field_name. (field_name, ValuesColumn vt field_name))
                 (dict_keys (clear_update_fields (updaters order_world 0) None))"
    by blast
  have "executed (sessions (snd (update_from_entities order_world 0 [0, 1] None)) 0) = [stmt]"
    using logged by (simp add: order_world_def)
  moreover have "whereclause stmt =
           AndAll
             [AndAll
                [ColIn \<lparr> key = ''order_id'', col_type = SaInteger, primary_key = True \<rparr>
                   [PyInt 1, PyInt 1],
                 ColIn \<lparr> key = ''attempt_id'', col_type = SaInteger, primary_key = True \<rparr>
                   [PyInt 1, PyInt 2]],
              AndAll
                [ColEq \<lparr> key = ''order_id'', col_type = SaInteger, primary_key = True \<rparr>
                   (ValuesColumn vt ''order_id''),
                 ColEq \<lparr> key = ''attempt_id'', col_type = SaInteger, primary_key = True \<rparr>
                   (ValuesColumn vt ''attempt_id'')]]"
    unfolding wh
    by (simp add: order_updater order_pk dict_values_def order_world_def
          order_paid_def order_failed_def)
  moreover have "set_values stmt =
           [(''status'', ValuesColumn vt ''status''), (''total'', ValuesColumn vt ''total'')]"
    unfolding sv by (simp add: order_updater order_resolved_default dict_keys_def)
  ultimately have "\<exists>vt stmt.
         executed (sessions (snd (update_from_entities order_world 0 [0, 1] None)) 0) = [stmt]
       \<and> target stmt = order_model
       \<and> whereclause stmt =
           AndAll
             [AndAll
                [ColIn \<lparr> key = ''order_id'', col_type = SaInteger, primary_key = True \<rparr>
                   [PyInt 1, PyInt 1],
                 ColIn \<lparr> key = ''attempt_id'', col_type = SaInteger, primary_key = True \<rparr>
                   [PyInt 1, PyInt 2]],
              AndAll
                [ColEq \<lparr> key = ''order_id'', col_type = SaInteger, primary_key = True \<rparr>
                   (ValuesColumn vt ''order_id''),
                 ColEq \<lparr> key = ''attempt_id'', col_type = SaInteger, primary_key = True \<rparr>
                   (ValuesColumn vt ''attempt_id'')]]
       \<and> set_values stmt =
           [(''status'', ValuesColumn vt ''status''), (''total'', ValuesColumn vt ''total'')]"
    using tgt by blast
  with h1 h2 h3' show ?thesis
    by (intro conjI) assumption+
qed

subsection \<open>C8: resolution at construction\<close>

text \<open>
  C8: for an updater constructed from a model class, an entity class and an optional explicit
  set of names, the primary-key fields are the columns whose name is in the explicit set when
  one is given, and the columns flagged as primary key otherwise; the default update fields are
  the names common to the row schema and the entity class, minus the primary-key fields, so the
  two are disjoint. Binding a session and both update methods leave the two cached mappings as
  construction computed them.
\<close>

theorem init_field_resolution:
  assumes "updaters w self = (init mc ec pf)\<lparr>session := s0\<rparr>"
  shows "(\<forall>names. pf = Some names \<longrightarrow>
            set (dict_keys (primary_fields_by_name (updaters w self)))
              = {n \<in> key ` set (table_columns mc). n \<in> names})
       \<and> (pf = None \<longrightarrow>
            set (dict_keys (primary_fields_by_name (updaters w self)))
              = key ` {c \<in> set (table_columns mc). primary_key c})
       \<and> set (dict_keys (default_update_fields_by_name (updaters w self)))
            = (key ` set (table_columns mc) \<inter> set ec)
                - set (dict_keys (primary_fields_by_name (updaters w self)))
       \<and> set (dict_keys (primary_fields_by_name (updaters w self)))
            \<inter> set (dict_keys (default_update_fields_by_name (updaters w self))) = {}
       \<and> (\<forall>w' \<in> {snd (call w self s), snd (update_from_entity w self e req),
                   snd (update_from_entities w self ents req)}.
            primary_fields_by_name (updaters w' self) = primary_fields_by_name (updaters w self)
          \<and> default_update_fields_by_name (updaters w' self)
              = default_update_fields_by_name (updaters w self))"
proof -
  have a: "\<forall>names. pf = Some names \<longrightarrow>
            set (dict_keys (primary_fields_by_name (updaters w self)))
              = {n \<in> key ` set (table_columns mc). n \<in> names}"
    unfolding assms pk_keys by (auto simp: is_primary_key_def)
  have b: "pf = None \<longrightarrow>
            set (dict_keys (primary_fields_by_name (updaters w self)))
              = key ` {c \<in> set (table_columns mc). primary_key c}"
    unfolding assms pk_keys by (auto simp: is_primary_key_def)
  have c: "set (dict_keys (default_update_fields_by_name (updaters w self)))
            = (key ` set (table_columns mc) \<inter> set ec)
                - set (dict_keys (primary_fields_by_name (updaters w self)))"
    unfolding assms by (rule default_keys)
  from c have d: "set (dict_keys (primary_fields_by_name (updaters w self)))
            \<inter> set (dict_keys (default_update_fields_by_name (updaters w self))) = {}"
    by blast
  have e: "\<forall>w' \<in> {snd (call w self s), snd (update_from_entity w self e req),
                   snd (update_from_entities w self ents req)}.
            primary_fields_by_name (updaters w' self) = primary_fields_by_name (updaters w self)
          \<and> default_update_fields_by_name (updaters w' self)
              = default_update_fields_by_name (updaters w self)"
    by (simp add: update_from_entities_updaters update_from_entity_updaters call_def)
  from a b c d e show ?thesis by blast
qed

theorem init_field_resolution_witness:
  "updaters order_world 0 = (init order_model order_fields None)\<lparr>session := Some 0\<rparr>
   \<and> set (dict_keys (primary_fields_by_name (updaters order_world 0)))
       = key ` {c \<in> set (table_columns order_model). primary_key c}
   \<and> set (dict_keys (default_update_fields_by_name (updaters order_world 0)))
       = (key ` set (table_columns order_model) \<inter> set order_fields)
           - set (dict_keys (primary_fields_by_name (updaters order_world 0)))
   \<and> primary_fields_by_name (updaters (snd (update_from_entities order_world 0 [0, 1] None)) 0)
       = primary_fields_by_name (updaters order_world 0)"
proof -
  have h: "updaters order_world 0 = (init order_model order_fields None)\<lparr>session := Some 0\<rparr>"
    by (simp add: order_world_def)
  from init_field_resolution [OF h, where ents = "[0, 1]" and req = None] h show ?thesis
    by simp
qed

subsection \<open>C9: entities pass through\<close>

text \<open>
  C9: whenever \<^verbatim>\<open>update_from_entity\<close> returns, it returns the reference to the entity it was
  given, and whenever \<^verbatim>\<open>update_from_entities\<close> returns for a non-empty list, it returns that
  list (for the empty list it returns \<^verbatim>\<open>None\<close>, see C2). Neither method changes any entity
  object, whether it returns or raises. Both do return when the updater is constructed and
  bound to a session that accepts the statement and the entities carry the fields read.
\<close>

theorem pass_through:
  "(\<forall>r. fst (update_from_entity w self e req) = Inr r \<longrightarrow> r = e)
   \<and> entities (snd (update_from_entity w self e req)) = entities w
   \<and> (\<forall>r. ents \<noteq> [] \<longrightarrow> fst (update_from_entities w self ents req) = Inr r \<longrightarrow> r = Some ents)
   \<and> entities (snd (update_from_entities w self ents req)) = entities w
   \<and> (updaters w self = (init mc ec pf)\<lparr>session := Some s\<rparr>
        \<and> \<not> failing (sessions w s)
        \<and> ents \<noteq> []
        \<and> (\<forall>r\<in>set (e # ents). has_attrs (entities w r)
              (dict_keys (primary_fields_by_name (updaters w self))
               @ dict_keys (clear_update_fields (updaters w self) req)))
      \<longrightarrow> fst (update_from_entity w self e req) = Inr e
        \<and> fst (update_from_entities w self ents req) = Inr (Some ents))"
proof -
  have a: "\<forall>r. fst (update_from_entity w self e req) = Inr r \<longrightarrow> r = e"
    using update_from_entity_result by blast
  have b: "entities (snd (update_from_entity w self e req)) = entities w"
    by (rule update_from_entity_entities)
  have c: "\<forall>r. ents \<noteq> [] \<longrightarrow> fst (update_from_entities w self ents req) = Inr r \<longrightarrow> r = Some ents"
    using update_from_entities_result by blast
  have d: "entities (snd (update_from_entities w self ents req)) = entities w"
    by (rule update_from_entities_entities)
  have e: "fst (update_from_entity w self e req) = Inr e
        \<and> fst (update_from_entities w self ents req) = Inr (Some ents)"
    if u: "updaters w self = (init mc ec pf)\<lparr>session := Some s\<rparr>"
      and ok: "\<not> failing (sessions w s)"
      and ne: "ents \<noteq> []"
      and attrs: "\<forall>r\<in>set (e # ents). has_attrs (entities w r)
              (dict_keys (primary_fields_by_name (updaters w self))
               @ dict_keys (clear_update_fields (updaters w self) req))"
  proof -
    from attrs have one: "has_attrs (entities w e)
              (dict_keys (primary_fields_by_name (updaters w self))
               @ dict_keys (clear_update_fields (updaters w self) req))"
      and many: "\<forall>r\<in>set ents. has_attrs (entities w r)
              (dict_keys (primary_fields_by_name (updaters w self))
               @ dict_keys (clear_update_fields (updaters w self) req))"
      by simp_all
    have "fst (update_from_entity w self e req) = Inr e"
      using ok by (simp add: single_update_result [OF u one])
    moreover from bulk_update_result [OF u ne many]
    have "fst (update_from_entities w self ents req) = Inr (Some ents)"
      using ok by auto
    ultimately show ?thesis ..
  qed
  from a b c d e show ?thesis by blast
qed

theorem pass_through_witness:
  "updaters order_world 0 = (init order_model order_fields None)\<lparr>session := Some 0\<rparr>
   \<and> \<not> failing (sessions order_world 0)
   \<and> [0, 1] \<noteq> ([] :: ref list)
   \<and> list_all (\<lambda>r. has_attrs (entities order_world r)
           (dict_keys (primary_fields_by_name (updaters order_world 0))
            @ dict_keys (clear_update_fields (updaters order_world 0) None))) (1 # [0, 1])
   \<and> fst (update_from_entity order_world 0 1 None) = Inr 1
   \<and> fst (update_from_entities order_world 0 [0, 1] None) = Inr (Some [0, 1])
   \<and> entities (snd (update_from_entity order_world 0 1 None)) = entities order_world
   \<and> entities (snd (update_from_entities order_world 0 [0, 1] None)) = entities order_world"
proof -
  have h1: "updaters order_world 0 = (init order_model order_fields None)\<lparr>session := Some 0\<rparr>"
    by (rule order_updater)
  have h2: "\<not> failing (sessions order_world 0)"
    by (simp add: order_world_def)
  have h3: "[0, 1] \<noteq> ([] :: ref list)"
    by simp
  have h4: "\<forall>r\<in>set (1 # [0, 1]). has_attrs (entities order_world r)
           (dict_keys (primary_fields_by_name (updaters order_world 0))
            @ dict_keys (clear_update_fields (updaters order_world 0) None))"
    by (rule order_attrs_default)
  from h4 have h4': "list_all (\<lambda>r. has_attrs (entities order_world r)
           (dict_keys (primary_fields_by_name (updaters order_world 0))
            @ dict_keys (clear_update_fields (updaters order_world 0) None))) (1 # [0, 1])"
    by (simp only: list_all_iff)
  note p = pass_through [where w = order_world and self = 0 and e = 1 and ents = "[0, 1]"
             and req = None and mc = order_model and ec = order_fields and pf = None and s = 0]
  from p h1 h2 h3 h4 have "fst (update_from_entity order_world 0 1 None) = Inr 1"
    and "fst (update_from_entities order_world 0 [0, 1] None) = Inr (Some [0, 1])"
    by blast+
  moreover from p have "entities (snd (update_from_entity order_world 0 1 None)) = entities order_world"
    and "entities (snd (update_from_entities order_world 0 [0, 1] None)) = entities order_world"
    by blast+
  ultimately show ?thesis
    using h1 h2 h3 h4' by (intro conjI) assumption+
qed

subsection \<open>C10: binding a session\<close>

text \<open>
  C10: \<^verbatim>\<open>__call__\<close> returns the reference it was called on and changes nothing but the
  session slot of that object: sessions, entities and the cached field mappings stay as they
  were, and neither update method changes any updater. A second binding replaces the first:
  after binding \<open>s1\<close> and then \<open>s2\<close>, an update through the same reference leaves every
  session other than \<open>s2\<close> as it was and, for a constructed updater and a non-empty batch of
  readable entities, appends its statement to the statements executed on \<open>s2\<close>.
\<close>

theorem call_binds_same_instance:
  "fst (call w self s1) = self
   \<and> updaters (snd (call w self s1)) = (updaters w)(self := (updaters w self)\<lparr>session := Some s1\<rparr>)
   \<and> sessions (snd (call w self s1)) = sessions w
   \<and> entities (snd (call w self s1)) = entities w
   \<and> primary_fields_by_name (updaters (snd (call w self s1)) self)
       = primary_fields_by_name (updaters w self)
   \<and> default_update_fields_by_name (updaters (snd (call w self s1)) self)
       = default_update_fields_by_name (updaters w self)
   \<and> updaters (snd (update_from_entity w self e req)) = updaters w
   \<and> updaters (snd (update_from_entities w self ents req)) = updaters w
   \<and> session (updaters (snd (call (snd (call w self s1)) self s2)) self) = Some s2
   \<and> (\<forall>s'. s' \<noteq> s2 \<longrightarrow>
         sessions (snd (update_from_entities (snd (call (snd (call w self s1)) self s2))
                          self ents req)) s' = sessions w s'
       \<and> sessions (snd (update_from_entity (snd (call (snd (call w self s1)) self s2))
                          self e req)) s' = sessions w s')
   \<and> (updaters w self = (init mc ec pf)\<lparr>session := s0\<rparr>
        \<and> ents \<noteq> []
        \<and> (\<forall>r\<in>set ents. has_attrs (entities w r)
              (dict_keys (primary_fields_by_name (updaters w self))
               @ dict_keys (clear_update_fields (updaters w self) req)))
      \<longrightarrow> (\<exists>stmt. executed (sessions (snd (update_from_entities
                        (snd (call (snd (call w self s1)) self s2)) self ents req)) s2)
                    = executed (sessions w s2) @ [stmt]))"
proof -
  let ?w1 = "snd (call w self s1)"
  let ?w2 = "snd (call ?w1 self s2)"
  have w2_upd: "updaters ?w2 self = (updaters w self)\<lparr>session := Some s2\<rparr>"
    and w2_ses: "sessions ?w2 = sessions w"
    and w2_ent: "entities ?w2 = entities w"
    by (simp_all add: call_def)
  have bound: "session (updaters ?w2 self) = Some s2"
    by (simp add: w2_upd)
  have a: "fst (call w self s1) = self"
    "updaters ?w1 = (updaters w)(self := (updaters w self)\<lparr>session := Some s1\<rparr>)"
    "sessions ?w1 = sessions w"
    "entities ?w1 = entities w"
    "primary_fields_by_name (updaters ?w1 self) = primary_fields_by_name (updaters w self)"
    "default_update_fields_by_name (updaters ?w1 self)
       = default_update_fields_by_name (updaters w self)"
    by (simp_all add: call_def)
  have b: "updaters (snd (update_from_entity w self e req)) = updaters w"
    "updaters (snd (update_from_entities w self ents req)) = updaters w"
    by (rule update_from_entity_updaters, rule update_from_entities_updaters)
  have c: "\<forall>s'. s' \<noteq> s2 \<longrightarrow>
         sessions (snd (update_from_entities ?w2 self ents req)) s' = sessions w s'
       \<and> sessions (snd (update_from_entity ?w2 self e req)) s' = sessions w s'"
    using update_from_entities_other_sessions [OF bound]
      update_from_entity_other_sessions [OF bound]
    by (simp add: w2_ses)
  have d: "\<exists>stmt. executed (sessions (snd (update_from_entities ?w2 self ents req)) s2)
                    = executed (sessions w s2) @ [stmt]"
    if u: "updaters w self = (init mc ec pf)\<lparr>session := s0\<rparr>"
      and ne: "ents \<noteq> []"
      and attrs: "\<forall>r\<in>set ents. has_attrs (entities w r)
              (dict_keys (primary_fields_by_name (updaters w self))
               @ dict_keys (clear_update_fields (updaters w self) req))"
  proof -
    have u2: "updaters ?w2 self = (init mc ec pf)\<lparr>session := Some s2\<rparr>"
      by (simp add: w2_upd u)
    have same: "primary_fields_by_name (updaters ?w2 self) = primary_fields_by_name (updaters w self)"
      "clear_update_fields (updaters ?w2 self) req = clear_update_fields (updaters w self) req"
      by (cases req; simp add: w2_upd clear_update_fields_def)+
    have attrs2: "\<forall>r\<in>set ents. has_attrs (entities ?w2 r)
              (dict_keys (primary_fields_by_name (updaters ?w2 self))
               @ dict_keys (clear_update_fields (updaters ?w2 self) req))"
      using attrs unfolding same w2_ent .
    from bulk_update_result [OF u2 ne attrs2]
    obtain stmt where "update_from_entities ?w2 self ents req =
             (if failing (sessions ?w2 s2) then Inl DBAPIError else Inr (Some ents),
              ?w2\<lparr> sessions := (sessions ?w2)
                    (s2 := (sessions ?w2 s2)\<lparr> executed := executed (sessions ?w2 s2) @ [stmt] \<rparr>) \<rparr>)"
      by blast
    then have "executed (sessions (snd (update_from_entities ?w2 self ents req)) s2)
                    = executed (sessions w s2) @ [stmt]"
      by (simp add: w2_ses)
    then show ?thesis ..
  qed
  from a b bound c d show ?thesis by blast
qed

theorem call_binds_same_instance_witness:
  "updaters order_world 0 = (init order_model order_fields None)\<lparr>session := Some 0\<rparr>
   \<and> [0, 1] \<noteq> ([] :: ref list)
   \<and> list_all (\<lambda>r. has_attrs (entities order_world r)
           (dict_keys (primary_fields_by_name (updaters order_world 0))
            @ dict_keys (clear_update_fields (updaters order_world 0) None))) [0, 1]
   \<and> fst (call order_world 0 1) = 0
   \<and> session (updaters (snd (call (snd (call order_world 0 1)) 0 2)) 0) = Some 2
   \<and> (\<exists>stmt. executed (sessions (snd (update_from_entities
                  (snd (call (snd (call order_world 0 1)) 0 2)) 0 [0, 1] None)) 2) = [stmt])
   \<and> executed (sessions (snd (update_from_entities
                  (snd (call (snd (call order_world 0 1)) 0 2)) 0 [0, 1] None)) 1) = []"
proof -
  have h1: "updaters order_world 0 = (init order_model order_fields None)\<lparr>session := Some 0\<rparr>"
    by (rule order_updater)
  have h2: "[0, 1] \<noteq> ([] :: ref list)"
    by simp
  have h3: "\<forall>r\<in>set [0, 1]. has_attrs (entities order_world r)
           (dict_keys (primary_fields_by_name (updaters order_world 0))
            @ dict_keys (clear_update_fields (updaters order_world 0) None))"
    by (rule order_attrs_default)
  from h3 have h3': "list_all (\<lambda>r. has_attrs (entities order_world r)
           (dict_keys (primary_fields_by_name (updaters order_world 0))
            @ dict_keys (clear_update_fields (updaters order_world 0) None))) [0, 1]"
    by (simp only: list_all_iff)
  note c = call_binds_same_instance [where w = order_world and self = 0 and ?s1.0 = 1
             and ?s2.0 = 2 and ents = "[0, 1]" and req = None and mc = order_model
             and ec = order_fields and pf = None and ?s0.0 = "Some 0"]
  from c have a: "fst (call order_world 0 1) = 0"
    and b: "session (updaters (snd (call (snd (call order_world 0 1)) 0 2)) 0) = Some 2"
    by blast+
  from c h1 h2 h3
  have "\<exists>stmt. executed (sessions (snd (update_from_entities
                  (snd (call (snd (call order_world 0 1)) 0 2)) 0 [0, 1] None)) 2)
              = executed (sessions order_world 2) @ [stmt]"
    by blast
  then have d: "\<exists>stmt. executed (sessions (snd (update_from_entities
                  (snd (call (snd (call order_world 0 1)) 0 2)) 0 [0, 1] None)) 2) = [stmt]"
    by (simp add: order_world_def)
  from c have "(1::ref) \<noteq> 2 \<longrightarrow> sessions (snd (update_from_entities
                  (snd (call (snd (call order_world 0 1)) 0 2)) 0 [0, 1] None)) 1
              = sessions order_world 1"
    by blast
  then have e: "executed (sessions (snd (update_from_entities
                  (snd (call (snd (call order_world 0 1)) 0 2)) 0 [0, 1] None)) 1) = []"
    by (simp add: order_world_def)
  from h1 h2 h3' a b d e show ?thesis
    by (intro conjI) assumption+
qed

end
